theory Spec2Isabelle
  imports Main "HOL-Library.Monad_Syntax"
begin

section \<open>JavaScript strings and arrays\<close>

text \<open>
  A JavaScript string is modelled as a HOL \<open>string\<close>, one \<open>char\<close> per code unit
  (code units below 256). The single quote is \<open>CHR 0x27\<close>, the double quote
  \<open>CHR 0x22\<close>, the backslash \<open>CHR 0x5C\<close> and the line feed \<open>CHR 0x0A\<close>.
  An optional property (\<^verbatim>\<open>route?: string\<close>) is an \<open>option\<close>, with \<open>None\<close> for
  \<^verbatim>\<open>undefined\<close>.
\<close>

text \<open>Truthiness of \<^verbatim>\<open>string | undefined\<close> and of \<^verbatim>\<open>boolean | undefined\<close>.\<close>

definition truthy_str :: "string option \<Rightarrow> bool" where
  "truthy_str s = (case s of None \<Rightarrow> False | Some v \<Rightarrow> v \<noteq> [])"

definition truthy_bool :: "bool option \<Rightarrow> bool" where
  "truthy_bool b = (case b of None \<Rightarrow> False | Some v \<Rightarrow> v)"

text \<open>\<^verbatim>\<open>s.startsWith(p)\<close> and \<^verbatim>\<open>s.endsWith(p)\<close>.\<close>

fun startsWith :: "string \<Rightarrow> string \<Rightarrow> bool" where
  "startsWith s [] = True"
| "startsWith [] (p # ps) = False"
| "startsWith (c # cs) (p # ps) = (c = p \<and> startsWith cs ps)"

definition endsWith :: "string \<Rightarrow> string \<Rightarrow> bool" where
  "endsWith s p = startsWith (rev s) (rev p)"

text \<open>\<^verbatim>\<open>arr.join(sep)\<close> on an array of strings.\<close>

fun join_str :: "string \<Rightarrow> string list \<Rightarrow> string" where
  "join_str sep [] = []"
| "join_str sep [x] = x"
| "join_str sep (x # y # ys) = x @ sep @ join_str sep (y # ys)"

text \<open>
  \<^verbatim>\<open>s.trim()\<close>: white space and line terminators are removed at both ends. Of the
  code units below 256 these are tab, line feed, vertical tab, form feed, carriage
  return, space and the no-break space.
\<close>

definition js_space :: "char \<Rightarrow> bool" where
  "js_space c = (c \<in> set [CHR 0x09, CHR 0x0A, CHR 0x0B, CHR 0x0C, CHR 0x0D, CHR 0x20, CHR 0xA0])"

definition trimStart :: "string \<Rightarrow> string" where
  "trimStart s = dropWhile js_space s"

definition trim :: "string \<Rightarrow> string" where
  "trim s = rev (dropWhile js_space (rev (dropWhile js_space s)))"

text \<open>
  \<^verbatim>\<open>const unique = (arr: any[]) => Array.from(new Set(arr))\<close>: a \<^verbatim>\<open>Set\<close> keeps
  its elements in insertion order, and adding an element it already holds changes
  nothing.
\<close>

definition set_add :: "'a list \<Rightarrow> 'a \<Rightarrow> 'a list" where
  "set_add acc x = (if x \<in> set acc then acc else acc @ [x])"

definition unique :: "'a list \<Rightarrow> 'a list" where
  "unique arr = foldl set_add [] arr"

text \<open>
  \<^verbatim>\<open>JSON.stringify\<close> of \<^verbatim>\<open>string | undefined\<close>, as a template literal prints it:
  \<^verbatim>\<open>undefined\<close> prints as the word, a string as a quoted JSON string with the double
  quote, the backslash and the control characters escaped.
\<close>

definition hex_digit :: "nat \<Rightarrow> char" where
  "hex_digit n = ''0123456789abcdef'' ! (n mod 16)"

definition json_escape :: "char \<Rightarrow> string" where
  "json_escape c =
     (if c = CHR 0x22 then [CHR 0x5C, CHR 0x22]
      else if c = CHR 0x5C then [CHR 0x5C, CHR 0x5C]
      else if c = CHR 0x08 then [CHR 0x5C, CHR ''b'']
      else if c = CHR 0x0C then [CHR 0x5C, CHR ''f'']
      else if c = CHR 0x0A then [CHR 0x5C, CHR ''n'']
      else if c = CHR 0x0D then [CHR 0x5C, CHR ''r'']
      else if c = CHR 0x09 then [CHR 0x5C, CHR ''t'']
      else if (of_char c :: nat) < 32
        then [CHR 0x5C, CHR ''u'', CHR ''0'', CHR ''0'',
              hex_digit ((of_char c :: nat) div 16), hex_digit (of_char c :: nat)]
      else [c])"

definition JSON_stringify :: "string option \<Rightarrow> string" where
  "JSON_stringify v =
     (case v of
        None \<Rightarrow> ''undefined''
      | Some s \<Rightarrow> [CHR 0x22] @ concat (map json_escape s) @ [CHR 0x22])"

definition js_bool :: "bool \<Rightarrow> string" where
  "js_bool b = (if b then ''true'' else ''false'')"


section \<open>The data model\<close>

text \<open>
  \<^verbatim>\<open>NitroEventHandler\<close>: every property but \<^verbatim>\<open>handler\<close> is optional. The
  property \<^verbatim>\<open>method\<close> is the field \<open>method'\<close>.
\<close>

record NitroEventHandler =
  route :: "string option"
  handler :: string
  lazy :: "bool option"
  middleware :: "bool option"
  method' :: "string option"

text \<open>
  The options the two plugins read. \<^verbatim>\<open>serveStatic\<close> is read for its truthiness
  only; \<^verbatim>\<open>tasks\<close> is the list \<^verbatim>\<open>Object.entries(nitro.options.tasks)\<close> of task
  names with their \<^verbatim>\<open>handler\<close> paths.
\<close>

record NitroOptions =
  handlers :: "NitroEventHandler list"
  serveStatic :: bool
  renderer :: "string option"
  buildDir :: string
  tasks :: "(string \<times> string) list"
  node :: bool
  dev :: bool
  nodeModulesDirs :: "string list"

record Nitro =
  options :: NitroOptions
  scannedHandlers :: "NitroEventHandler list"


section \<open>The server-handlers virtual module\<close>

text \<open>
  \<^verbatim>\<open>const getImportId = (p, lazy?) => (lazy ? '_lazy_' : '_') + hash(p).slice(0, 6)\<close>.
  \<^verbatim>\<open>hash\<close> is the function of the \<^verbatim>\<open>ohash\<close> package, a parameter here.
\<close>

definition getImportId :: "(string \<Rightarrow> string) \<Rightarrow> string \<Rightarrow> bool option \<Rightarrow> string" where
  "getImportId hash p lz = (if truthy_bool lz then ''_lazy_'' else ''_'') @ take 6 (hash p)"

text \<open>The character classes of a binding name.\<close>

definition is_digit :: "char \<Rightarrow> bool" where
  "is_digit c = (c \<in> set ''0123456789'')"

definition is_alpha :: "char \<Rightarrow> bool" where
  "is_alpha c = (c \<in> set ''abcdefghijklmnopqrstuvwxyzABCDEFGHIJKLMNOPQRSTUVWXYZ'')"

definition is_word_char :: "char \<Rightarrow> bool" where
  "is_word_char c = (is_alpha c \<or> is_digit c \<or> c = CHR ''_'')"

definition binding_name :: "string \<Rightarrow> bool" where
  "binding_name s = (case s of [] \<Rightarrow> False | c # cs \<Rightarrow> \<not> is_digit c \<and> list_all is_word_char (c # cs))"



text \<open>
  A stand-in for \<^verbatim>\<open>hash\<close>, used only where an example needs a concrete function:
  the letters and digits of the path, padded with zeros, cut to 10 characters.
\<close>

definition sample_hash :: "string \<Rightarrow> string" where
  "sample_hash p = take 10 (filter (\<lambda>c. is_alpha c \<or> is_digit c) p @ ''0000000000'')"

subsection \<open>Method inference\<close>

text \<open>
  The regular expression
  \<^verbatim>\<open>/\.(get|head|patch|post|put|delete|connect|options|trace)(\.\w+)*$/\<close>.
  \<open>ext_tail\<close> is its tail \<^verbatim>\<open>(\.\w+)*$\<close>: a dot, the longest run of word characters
  (at least one), and so on to the end of the string. A shorter run could only be
  followed by a word character, so backtracking finds nothing more.
\<close>

definition methods :: "string list" where
  "methods = [''get'', ''head'', ''patch'', ''post'', ''put'', ''delete'', ''connect'',
              ''options'', ''trace'']"

function ext_tail :: "string \<Rightarrow> bool" where
  "ext_tail [] = True"
| "ext_tail (c # cs) =
     (c = CHR ''.'' \<and> takeWhile is_word_char cs \<noteq> [] \<and> ext_tail (dropWhile is_word_char cs))"
  by pat_completeness auto
termination
  by (relation "measure length") (auto simp: length_dropWhile_le less_Suc_eq_le)

text \<open>
  The match of the whole expression at the start of \<open>s\<close>: the alternatives are tried
  in their order; the result is group 1.
\<close>

definition match_here :: "string \<Rightarrow> string option" where
  "match_here s =
     find (\<lambda>m. startsWith s (CHR ''.'' # m) \<and> ext_tail (drop (Suc (length m)) s)) methods"

text \<open>\<^verbatim>\<open>str.match(re)\<close> without the \<^verbatim>\<open>g\<close> flag: the leftmost match.\<close>

fun match_method :: "string \<Rightarrow> string option" where
  "match_method [] = None"
| "match_method (c # cs) =
     (case match_here (c # cs) of Some m \<Rightarrow> Some m | None \<Rightarrow> match_method cs)"

text \<open>
  The callback of \<^verbatim>\<open>nitro.options.handlers.map\<close>:
  \<^verbatim>\<open>if (handler.method) { return handler }\<close>, else
  \<^verbatim>\<open>{ ...handler, method }\<close> with the method of the match, or \<^verbatim>\<open>undefined\<close>.
\<close>

definition infer_method :: "NitroEventHandler \<Rightarrow> NitroEventHandler" where
  "infer_method h =
     (if truthy_str (method' h) then h else h\<lparr>method' := match_method (handler h)\<rparr>)"





subsection \<open>The handler table\<close>

definition static_entry :: NitroEventHandler where
  "static_entry = \<lparr>route = None, handler = ''#internal/nitro/static'', lazy = None,
                   middleware = Some True, method' = None\<rparr>"

definition renderer_entry :: "string \<Rightarrow> NitroEventHandler" where
  "renderer_entry r = \<lparr>route = Some ''/**'', handler = r, lazy = Some True,
                       middleware = None, method' = None\<rparr>"

text \<open>
  The local \<^verbatim>\<open>handlers\<close> array: the scanned handlers, the configured handlers with
  their methods inferred, \<^verbatim>\<open>unshift\<close> of the static entry and \<^verbatim>\<open>push\<close> of the
  renderer entry.
\<close>

definition handler_table :: "Nitro \<Rightarrow> NitroEventHandler list" where
  "handler_table nitro =
     (let hs0 = scannedHandlers nitro @ map infer_method (handlers (options nitro));
          hs1 = (if serveStatic (options nitro) then static_entry # hs0 else hs0)
      in (case renderer (options nitro) of
            None \<Rightarrow> hs1
          | Some r \<Rightarrow> if r \<noteq> [] then hs1 @ [renderer_entry r] else hs1))"

subsection \<open>The generated code\<close>

definition imports_list :: "NitroEventHandler list \<Rightarrow> string list" where
  "imports_list hs = unique (map handler (filter (\<lambda>h. \<not> truthy_bool (lazy h)) hs))"

definition lazyImports :: "NitroEventHandler list \<Rightarrow> string list" where
  "lazyImports hs = unique (map handler (filter (\<lambda>h. truthy_bool (lazy h)) hs))"

text \<open>\<^verbatim>\<open>import ${getImportId(handler)} from '${handler}';\<close>\<close>

definition import_stmt :: "(string \<Rightarrow> string) \<Rightarrow> string \<Rightarrow> string" where
  "import_stmt hash m =
     ''import '' @ getImportId hash m None @ '' from '' @ [CHR 0x27] @ m @ [CHR 0x27] @ '';''"

text \<open>\<^verbatim>\<open>const ${getImportId(handler, true)} = () => import('${handler}');\<close>\<close>

definition lazy_stmt :: "(string \<Rightarrow> string) \<Rightarrow> string \<Rightarrow> string" where
  "lazy_stmt hash m =
     ''const '' @ getImportId hash m (Some True) @ '' = () => import('' @ [CHR 0x27] @ m
       @ [CHR 0x27] @ '');''"

text \<open>
  A row of the array:
  \<^verbatim>\<open>  { route: '${h.route || ''}', handler: ${getImportId(h.handler, h.lazy)}, lazy: ${!!h.lazy}, middleware: ${!!h.middleware}, method: ${JSON.stringify(h.method)} }\<close>
\<close>

definition route_or_empty :: "NitroEventHandler \<Rightarrow> string" where
  "route_or_empty h = (case route h of None \<Rightarrow> [] | Some r \<Rightarrow> r)"

definition row :: "(string \<Rightarrow> string) \<Rightarrow> NitroEventHandler \<Rightarrow> string" where
  "row hash h =
     ''  { route: '' @ [CHR 0x27] @ route_or_empty h @ [CHR 0x27]
     @ '', handler: '' @ getImportId hash (handler h) (lazy h)
     @ '', lazy: '' @ js_bool (truthy_bool (lazy h))
     @ '', middleware: '' @ js_bool (truthy_bool (middleware h))
     @ '', method: '' @ JSON_stringify (method' h) @ '' }''"

text \<open>The template literal, trimmed.\<close>

definition array_text :: "(string \<Rightarrow> string) \<Rightarrow> NitroEventHandler list \<Rightarrow> string" where
  "array_text hash hs =
     ''export const handlers = ['' @ [CHR 0x0A]
     @ join_str ('','' @ [CHR 0x0A]) (map (row hash) hs) @ [CHR 0x0A] @ ''];''"

definition imports_text :: "(string \<Rightarrow> string) \<Rightarrow> NitroEventHandler list \<Rightarrow> string" where
  "imports_text hash hs =
     [CHR 0x0A] @ join_str [CHR 0x0A] (map (import_stmt hash) (imports_list hs))
     @ [CHR 0x0A, CHR 0x0A] @ join_str [CHR 0x0A] (map (lazy_stmt hash) (lazyImports hs))
     @ [CHR 0x0A, CHR 0x0A]"

definition code :: "(string \<Rightarrow> string) \<Rightarrow> NitroEventHandler list \<Rightarrow> string" where
  "code hash hs = trim (imports_text hash hs @ array_text hash hs @ [CHR 0x0A] @ ''  '')"

subsection \<open>The generator and its debug dump\<close>

text \<open>
  The generator of \<^verbatim>\<open>#internal/nitro/virtual/server-handlers\<close>, with the closure
  variable \<^verbatim>\<open>lastDump\<close> as explicit state and \<^verbatim>\<open>console.log\<close> as a list of printed
  strings. \<^verbatim>\<open>isDebug\<close> is the constant of \<^verbatim>\<open>std-env\<close>. \<^verbatim>\<open>dumpHandler\<close> renders
  through the \<^verbatim>\<open>table\<close> package and \<^verbatim>\<open>process.cwd()\<close>, and \<^verbatim>\<open>dumpObject\<close> lists
  the own keys of each handler object, which the record above does not keep: the
  dump is a parameter, a function of the handler table.
\<close>

record generated =
  source :: string
  printed :: "string list"
  lastDump :: string

definition server_handlers ::
  "(string \<Rightarrow> string) \<Rightarrow> (NitroEventHandler list \<Rightarrow> string) \<Rightarrow> bool \<Rightarrow> Nitro \<Rightarrow> string
     \<Rightarrow> generated" where
  "server_handlers hash dumpHandler isDebug nitro prev =
     (let hs = handler_table nitro;
          (prev', out) =
            (if isDebug then
               (let dumped = dumpHandler hs in
                if dumped \<noteq> prev then (dumped, if hs \<noteq> [] then [dumped] else [])
                else (prev, []))
             else (prev, []))
      in \<lparr>source = code hash hs, printed = out, lastDump = prev'\<rparr>)"

section \<open>The chunk names of the Rollup configuration\<close>

text \<open>
  What \<^verbatim>\<open>getRollupConfig\<close> takes from other packages: \<^verbatim>\<open>join\<close> and \<^verbatim>\<open>resolve\<close> of
  \<^verbatim>\<open>pathe\<close>, \<^verbatim>\<open>runtimeDir\<close> of \<^verbatim>\<open>nitropack/runtime/meta\<close>, \<^verbatim>\<open>builtinModules\<close>,
  \<^verbatim>\<open>isAbsolute\<close> and \<^verbatim>\<open>pathToFileURL\<close> of Node, \<^verbatim>\<open>resolveModulePath\<close> of
  \<^verbatim>\<open>exsolve\<close>, and \<^verbatim>\<open>this.resolve\<close> of the Rollup plugin context (with its third
  argument, which the plugin passes on unread). They are parameters. Of what
  \<^verbatim>\<open>this.resolve\<close> returns, \<^verbatim>\<open>external\<close> is read for its truthiness only.
\<close>

record ResolveOptions =
  opt_try :: bool
  opt_from :: "string list"
  opt_suffixes :: "string list"
  opt_extensions :: "string list"
  opt_conditions :: "string list"

record ResolvedId =
  resolved_id :: string
  external :: bool

record RollupEnv =
  join :: "string \<Rightarrow> string \<Rightarrow> string"
  resolve :: "string \<Rightarrow> string \<Rightarrow> string"
  runtimeDir :: string
  builtinModules :: "string list"
  isAbsolute :: "string \<Rightarrow> bool"
  pathToFileURL :: "string \<Rightarrow> string"
  resolveModulePath :: "string \<Rightarrow> ResolveOptions \<Rightarrow> string option"
  this_resolve :: "string \<Rightarrow> string option \<Rightarrow> ResolvedId option"

definition buildServerDir :: "RollupEnv \<Rightarrow> Nitro \<Rightarrow> string" where
  "buildServerDir env nitro = join env (buildDir (options nitro)) ''dist/server''"

definition presetsDir :: "RollupEnv \<Rightarrow> string" where
  "presetsDir env = resolve env (runtimeDir env) ''../presets''"

definition chunkNamePrefixes :: "RollupEnv \<Rightarrow> Nitro \<Rightarrow> (string \<times> string) list" where
  "chunkNamePrefixes env nitro =
     [(buildDir (options nitro), ''build''),
      (buildServerDir env nitro, ''app''),
      (runtimeDir env, ''nitro''),
      (presetsDir env, ''nitro''),
      (CHR 0x00 # ''raw:'', ''raw''),
      (CHR 0x00 # ''nitro-wasm:'', ''wasm''),
      ([CHR 0x00], ''virtual'')]"

text \<open>\<^verbatim>\<open>chunks/${name}/[name].mjs\<close>\<close>

definition chunk_file :: "string \<Rightarrow> string" where
  "chunk_file name = ''chunks/'' @ name @ ''/[name].mjs''"

text \<open>The \<^verbatim>\<open>for\<close> loop over the prefixes, which returns at the first match.\<close>

fun prefix_loop :: "(string \<times> string) list \<Rightarrow> string \<Rightarrow> string option" where
  "prefix_loop [] mid = None"
| "prefix_loop ((dir, name) # rest) mid =
     (if startsWith mid dir then Some (chunk_file name) else prefix_loop rest mid)"

text \<open>
  \<^verbatim>\<open>route.replace(/:([^/]+)/g, "_$1")\<close>: from left to right, a colon followed by at
  least one character other than a slash is replaced, with the longest such run, by
  an underscore and the run; the search goes on after the run.
\<close>

definition not_slash :: "char \<Rightarrow> bool" where
  "not_slash c = (c \<noteq> CHR ''/'')"

function replace_params :: "string \<Rightarrow> string" where
  "replace_params [] = []"
| "replace_params (c # cs) =
     (if c = CHR '':'' \<and> takeWhile not_slash cs \<noteq> []
      then CHR ''_'' # takeWhile not_slash cs @ replace_params (dropWhile not_slash cs)
      else c # replace_params cs)"
  by pat_completeness auto
termination
  by (relation "measure length") (auto simp: length_dropWhile_le less_Suc_eq_le)

text \<open>
  \<^verbatim>\<open>.replace(/\/[^/]+$/g, "")\<close>: the leftmost slash that is followed, up to the end
  of the string, by at least one character and by no slash, is removed with what
  follows it.
\<close>

fun strip_last_segment :: "string \<Rightarrow> string" where
  "strip_last_segment [] = []"
| "strip_last_segment (c # cs) =
     (if c = CHR ''/'' \<and> cs \<noteq> [] \<and> list_all not_slash cs then []
      else c # strip_last_segment cs)"

definition route_path :: "string \<Rightarrow> string" where
  "route_path r =
     (let p = strip_last_segment (replace_params r) in if p = [] then ''/'' else p)"

text \<open>
  \<^verbatim>\<open>nitro.options.handlers.find(...) || nitro.scannedHandlers.find(...)\<close>: a handler
  object is truthy, so the scanned handlers are searched only when no configured
  handler matches.
\<close>

definition routeHandler :: "Nitro \<Rightarrow> string \<Rightarrow> NitroEventHandler option" where
  "routeHandler nitro mid =
     (case find (\<lambda>h. startsWith mid (handler h)) (handlers (options nitro)) of
        Some h \<Rightarrow> Some h
      | None \<Rightarrow> find (\<lambda>h. startsWith mid (handler h)) (scannedHandlers nitro))"

definition taskHandler :: "Nitro \<Rightarrow> string \<Rightarrow> (string \<times> string) option" where
  "taskHandler nitro mid = find (\<lambda>(name, task_handler). task_handler = mid) (tasks (options nitro))"

definition task_or_unknown :: "Nitro \<Rightarrow> string \<Rightarrow> string" where
  "task_or_unknown nitro mid =
     (case taskHandler nitro mid of
        Some t \<Rightarrow> ''chunks/tasks/[name].mjs''
      | None \<Rightarrow> ''chunks/_/[name].mjs'')"

definition getChunkName :: "RollupEnv \<Rightarrow> Nitro \<Rightarrow> string \<Rightarrow> string" where
  "getChunkName env nitro mid =
     (case prefix_loop (chunkNamePrefixes env nitro) mid of
        Some file \<Rightarrow> file
      | None \<Rightarrow>
          (case routeHandler nitro mid of
             None \<Rightarrow> task_or_unknown nitro mid
           | Some h \<Rightarrow>
               (case route h of
                  None \<Rightarrow> task_or_unknown nitro mid
                | Some r \<Rightarrow>
                    if r \<noteq> [] then ''chunks/routes'' @ route_path r @ ''/[name].mjs''
                    else task_or_unknown nitro mid)))"

text \<open>
  Routes as lists of segments, to state what \<open>route_path\<close> does: a plain segment has no
  slash and no colon, a parameter segment is a colon and a name without a slash.
\<close>

datatype segment = Plain string | Param string

fun segment_text :: "segment \<Rightarrow> string" where
  "segment_text (Plain s) = s"
| "segment_text (Param x) = CHR '':'' # x"

fun segment_chunk :: "segment \<Rightarrow> string" where
  "segment_chunk (Plain s) = s"
| "segment_chunk (Param x) = CHR ''_'' # x"

fun segment_ok :: "segment \<Rightarrow> bool" where
  "segment_ok (Plain s) = (s \<noteq> [] \<and> list_all (\<lambda>c. c \<noteq> CHR ''/'' \<and> c \<noteq> CHR '':'') s)"
| "segment_ok (Param x) = (x \<noteq> [] \<and> list_all not_slash x)"

definition route_of :: "segment list \<Rightarrow> string" where
  "route_of segs = concat (map (\<lambda>g. CHR ''/'' # segment_text g) segs)"

definition chunk_dir_of :: "segment list \<Rightarrow> string" where
  "chunk_dir_of segs = concat (map (\<lambda>g. CHR ''/'' # segment_chunk g) segs)"


subsection \<open>The bindings of the plugins module\<close>

text \<open>
  The binding of a plugin in \<^verbatim>\<open>#nitro-internal-virtual/plugins\<close>, written twice in
  \<^verbatim>\<open>getRollupConfig\<close>: \<^verbatim>\<open>_${hash(plugin).replace(/-/g, "")}\<close>.
\<close>

definition plugin_import_id :: "(string \<Rightarrow> string) \<Rightarrow> string \<Rightarrow> string" where
  "plugin_import_id hash plugin = CHR ''_'' # filter (\<lambda>c. c \<noteq> CHR ''-'') (hash plugin)"


section \<open>The no-externals plugin\<close>

text \<open>
  What \<^verbatim>\<open>resolveId\<close> does: it returns \<^verbatim>\<open>{ id, external }\<close>, returns nothing (Rollup
  goes on to the next resolver), or throws an \<^verbatim>\<open>Error\<close> with a message.
\<close>

datatype ResolveResult = Return string bool | ReturnUndefined | Throw string

definition fallback_options :: "RollupEnv \<Rightarrow> Nitro \<Rightarrow> string option \<Rightarrow> ResolveOptions" where
  "fallback_options env nitro importer =
     \<lparr>opt_try = True,
      opt_from =
        (case importer of
           None \<Rightarrow> nodeModulesDirs (options nitro)
         | Some i \<Rightarrow>
             if i \<noteq> [] \<and> isAbsolute env i
             then pathToFileURL env i # nodeModulesDirs (options nitro)
             else nodeModulesDirs (options nitro)),
      opt_suffixes = ['''', ''/index''],
      opt_extensions = [''.mjs'', ''.cjs'', ''.js'', ''.mts'', ''.cts'', ''.ts'', ''.json''],
      opt_conditions =
        [''default'', if dev (options nitro) then ''development'' else ''production'',
         ''node'', ''import'', ''require'']\<rparr>"

definition cannot_resolve :: "string \<Rightarrow> string option \<Rightarrow> string" where
  "cannot_resolve mid importer =
     ''Cannot resolve '' @ JSON_stringify (Some mid) @ '' from '' @ JSON_stringify importer
     @ '' and externals are not allowed!''"

definition resolveId :: "RollupEnv \<Rightarrow> Nitro \<Rightarrow> string \<Rightarrow> string option \<Rightarrow> ResolveResult" where
  "resolveId env nitro mid importer =
     (if node (options nitro) \<and> (startsWith mid ''node:'' \<or> mid \<in> set (builtinModules env))
      then Return mid True
      else
        (let resolved = this_resolve env mid importer;
             found =
               (case resolved of
                  Some r \<Rightarrow> None
                | None \<Rightarrow>
                    (case resolveModulePath env mid (fallback_options env nitro importer) of
                       None \<Rightarrow> None
                     | Some p \<Rightarrow> if p \<noteq> [] then Some (Return p False) else None))
         in (case found of
               Some result \<Rightarrow> result
             | None \<Rightarrow>
                 if (case resolved of
                       None \<Rightarrow> True
                     | Some r \<Rightarrow> external r \<and> \<not> endsWith mid ''.wasm'')
                 then Throw (cannot_resolve mid importer)
                 else ReturnUndefined)))"

section \<open>Reading the array back\<close>

text \<open>
  The fields of a row of the generated array, as the JavaScript parser reads them: the
  route (a single-quoted string literal), the handler (a binding name), the two
  booleans and the method (\<^verbatim>\<open>undefined\<close> or a double-quoted string literal). Read
  from the text, left to right, in the layout the generator writes; \<open>None\<close> is a
  text that is not such a row.
\<close>

record row_fields =
  f_route :: string
  f_handler :: string
  f_lazy :: bool
  f_middleware :: bool
  f_method :: "string option"

definition expect :: "string \<Rightarrow> string \<Rightarrow> string option" where
  "expect lit s = (if startsWith s lit then Some (drop (length lit) s) else None)"

text \<open>
  The body of a single-quoted literal, after the opening quote, up to the closing one.
  A line terminator ends the literal in error; escape sequences (a backslash) are not
  read here, the result is \<open>None\<close>.
\<close>

fun sq_body :: "string \<Rightarrow> (string \<times> string) option" where
  "sq_body [] = None"
| "sq_body (c # cs) =
     (if c = CHR 0x27 then Some ([], cs)
      else if c = CHR 0x5C \<or> c = CHR 0x0A \<or> c = CHR 0x0D then None
      else (case sq_body cs of None \<Rightarrow> None | Some (v, rest) \<Rightarrow> Some (c # v, rest)))"

fun index_of :: "'a \<Rightarrow> 'a list \<Rightarrow> nat option" where
  "index_of x [] = None"
| "index_of x (y # ys) = (if x = y then Some 0 else map_option Suc (index_of x ys))"

definition hex_value :: "char \<Rightarrow> nat option" where
  "hex_value c =
     (case index_of c ''0123456789abcdef'' of
        Some n \<Rightarrow> Some n
      | None \<Rightarrow> map_option (\<lambda>n. n + 10) (index_of c ''ABCDEF''))"

text \<open>
  An escape sequence, after its backslash: the ones \<^verbatim>\<open>JSON.stringify\<close> writes. A
  code unit of 256 or more has no \<open>char\<close>; any other escape is not read here.
\<close>

definition unescape :: "string \<Rightarrow> (char \<times> string) option" where
  "unescape s =
     (case s of
        [] \<Rightarrow> None
      | e # es \<Rightarrow>
          if e = CHR 0x22 then Some (CHR 0x22, es)
          else if e = CHR 0x5C then Some (CHR 0x5C, es)
          else if e = CHR ''b'' then Some (CHR 0x08, es)
          else if e = CHR ''f'' then Some (CHR 0x0C, es)
          else if e = CHR ''n'' then Some (CHR 0x0A, es)
          else if e = CHR ''r'' then Some (CHR 0x0D, es)
          else if e = CHR ''t'' then Some (CHR 0x09, es)
          else if e = CHR ''u'' then
            (case es of
               a # b # c # d # rest \<Rightarrow>
                 (case (hex_value a, hex_value b, hex_value c, hex_value d) of
                    (Some x3, Some x2, Some x1, Some x0) \<Rightarrow>
                      (let n = ((x3 * 16 + x2) * 16 + x1) * 16 + x0
                       in if n < 256 then Some (char_of n, rest) else None)
                  | _ \<Rightarrow> None)
             | _ \<Rightarrow> None)
          else None)"

text \<open>The body of a double-quoted literal, after the opening quote.\<close>

function dq_body :: "string \<Rightarrow> (string \<times> string) option" where
  "dq_body [] = None"
| "dq_body (c # cs) =
     (if c = CHR 0x22 then Some ([], cs)
      else if c = CHR 0x5C then
        (case unescape cs of
           None \<Rightarrow> None
         | Some (d, rest) \<Rightarrow>
             (case dq_body rest of None \<Rightarrow> None | Some (v, r) \<Rightarrow> Some (d # v, r)))
      else if c = CHR 0x0A \<or> c = CHR 0x0D then None
      else (case dq_body cs of None \<Rightarrow> None | Some (v, r) \<Rightarrow> Some (c # v, r)))"
  by pat_completeness auto
termination
proof (relation "measure length")
  show "wf (measure length)"
    by simp
next
  fix c :: char and cs x2 d rest
  assume "unescape cs = Some x2" and "(d, rest) = x2"
  then have "length rest \<le> length cs"
    by (auto simp: unescape_def Let_def split: list.splits if_splits option.splits)
  then show "(rest, c # cs) \<in> measure length"
    by simp
next
  fix c :: char and cs
  show "(cs, c # cs) \<in> measure length"
    by simp
qed

definition parse_bool :: "string \<Rightarrow> (bool \<times> string) option" where
  "parse_bool s =
     (if startsWith s ''true'' then Some (True, drop 4 s)
      else if startsWith s ''false'' then Some (False, drop 5 s)
      else None)"

definition parse_method :: "string \<Rightarrow> (string option \<times> string) option" where
  "parse_method s =
     (if startsWith s ''undefined'' then Some (None, drop 9 s)
      else (case s of
              [] \<Rightarrow> None
            | c # cs \<Rightarrow>
                if c = CHR 0x22
                then (case dq_body cs of None \<Rightarrow> None | Some (v, r) \<Rightarrow> Some (Some v, r))
                else None))"

text \<open>A row at the start of the text, and what follows it.\<close>

definition parse_row :: "string \<Rightarrow> (row_fields \<times> string) option" where
  "parse_row s =
     do {
       s1 \<leftarrow> expect (''  { route: '' @ [CHR 0x27]) s;
       (r, s2) \<leftarrow> sq_body s1;
       s3 \<leftarrow> expect '', handler: '' s2;
       s4 \<leftarrow> (if takeWhile is_word_char s3 = [] then None
              else Some (dropWhile is_word_char s3));
       s5 \<leftarrow> expect '', lazy: '' s4;
       (lz, s6) \<leftarrow> parse_bool s5;
       s7 \<leftarrow> expect '', middleware: '' s6;
       (mw, s8) \<leftarrow> parse_bool s7;
       s9 \<leftarrow> expect '', method: '' s8;
       (m, s10) \<leftarrow> parse_method s9;
       s11 \<leftarrow> expect '' }'' s10;
       Some (\<lparr>f_route = r, f_handler = takeWhile is_word_char s3, f_lazy = lz,
                f_middleware = mw, f_method = m\<rparr>, s11)
     }"

text \<open>
  The rows of the array, separated by a comma and a line feed. Every row takes at
  least one character, so the length of the text is fuel enough; \<open>None\<close> with no
  fuel left.
\<close>

fun parse_rows :: "nat \<Rightarrow> string \<Rightarrow> (row_fields list \<times> string) option" where
  "parse_rows 0 s = None"
| "parse_rows (Suc n) s =
     (case parse_row s of
        None \<Rightarrow> None
      | Some (f, rest) \<Rightarrow>
          if startsWith rest ('','' @ [CHR 0x0A])
          then (case parse_rows n (drop 2 rest) of
                  None \<Rightarrow> None
                | Some (fs, r) \<Rightarrow> Some (f # fs, r))
          else Some ([f], rest))"

text \<open>
  The array literal \<^verbatim>\<open>export const handlers = [ ... ];\<close> as the generator lays it
  out: the rows between the opening line and the closing line.
\<close>

definition read_array :: "string \<Rightarrow> row_fields list option" where
  "read_array s =
     (case expect (''export const handlers = ['' @ [CHR 0x0A]) s of
        None \<Rightarrow> None
      | Some body \<Rightarrow>
          if body = CHR 0x0A # ''];'' then Some []
          else (case parse_rows (length body) body of
                  None \<Rightarrow> None
                | Some (fs, r) \<Rightarrow> if r = CHR 0x0A # ''];'' then Some fs else None))"

text \<open>What a row should read back as.\<close>

definition fields_of :: "(string \<Rightarrow> string) \<Rightarrow> NitroEventHandler \<Rightarrow> row_fields" where
  "fields_of hash h =
     \<lparr>f_route = route_or_empty h, f_handler = getImportId hash (handler h) (lazy h),
      f_lazy = truthy_bool (lazy h), f_middleware = truthy_bool (middleware h),
      f_method = method' h\<rparr>"

definition safe_route :: "string \<Rightarrow> bool" where
  "safe_route r =
     list_all (\<lambda>c. c \<noteq> CHR 0x27 \<and> c \<noteq> CHR 0x5C \<and> c \<noteq> CHR 0x0A \<and> c \<noteq> CHR 0x0D) r"

section \<open>Sample inputs\<close>

text \<open>A project with one configured route, one scanned route and one task.\<close>

definition sample_options :: NitroOptions where
  "sample_options =
     \<lparr>handlers =
        [\<lparr>route = Some ''/api/users/:id'', handler = ''/app/handlers/users.get.ts'',
          lazy = Some True, middleware = None, method' = None\<rparr>],
      serveStatic = True,
      renderer = Some ''/app/renderer.ts'',
      buildDir = ''/app/.nitro'',
      tasks = [(''db:migrate'', ''/app/tasks/db/migrate.ts'')],
      node = True,
      dev = False,
      nodeModulesDirs = [''/app/node_modules'']\<rparr>"

definition sample_nitro :: Nitro where
  "sample_nitro =
     \<lparr>options = sample_options,
      scannedHandlers =
        [\<lparr>route = Some ''/hello'', handler = ''/app/routes/hello.ts'', lazy = None,
          middleware = None, method' = None\<rparr>]\<rparr>"

text \<open>
  Library functions for the examples: paths joined with a slash, nothing found by
  either resolver.
\<close>

definition sample_join :: "string \<Rightarrow> string \<Rightarrow> string" where
  "sample_join a b = a @ ''/'' @ b"

definition sample_resolve :: "string \<Rightarrow> string \<Rightarrow> string" where
  "sample_resolve a b = ''/app/node_modules/nitropack/dist/presets''"

definition sample_isAbsolute :: "string \<Rightarrow> bool" where
  "sample_isAbsolute p = startsWith p ''/''"

definition sample_pathToFileURL :: "string \<Rightarrow> string" where
  "sample_pathToFileURL p = ''file://'' @ p"

definition nothing_found :: "string \<Rightarrow> ResolveOptions \<Rightarrow> string option" where
  "nothing_found m opts = None"

definition nothing_resolved :: "string \<Rightarrow> string option \<Rightarrow> ResolvedId option" where
  "nothing_resolved m importer = None"

definition sample_env :: RollupEnv where
  "sample_env =
     \<lparr>join = sample_join,
      resolve = sample_resolve,
      runtimeDir = ''/app/node_modules/nitropack/dist/runtime'',
      builtinModules = [''fs'', ''path'', ''node:test''],
      isAbsolute = sample_isAbsolute,
      pathToFileURL = sample_pathToFileURL,
      resolveModulePath = nothing_found,
      this_resolve = nothing_resolved\<rparr>"

text \<open>
  Resolvers for the examples: a primary resolver that flags every module external,
  and a fallback that finds every module under the first search directory.
\<close>

definition resolved_external :: "string \<Rightarrow> string option \<Rightarrow> ResolvedId option" where
  "resolved_external m importer = Some \<lparr>resolved_id = m, external = True\<rparr>"

definition found_in_first_dir :: "string \<Rightarrow> ResolveOptions \<Rightarrow> string option" where
  "found_in_first_dir m opts =
     (case opt_from opts of [] \<Rightarrow> None | d # ds \<Rightarrow> Some (d @ ''/'' @ m @ ''/index.mjs''))"

definition external_env :: RollupEnv where
  "external_env = sample_env\<lparr>this_resolve := resolved_external\<rparr>"

definition fallback_env :: RollupEnv where
  "fallback_env = sample_env\<lparr>resolveModulePath := found_in_first_dir\<rparr>"

text \<open>A dump for the examples: the handler paths, one per line.\<close>

definition sample_dump :: "NitroEventHandler list \<Rightarrow> string" where
  "sample_dump hs = join_str [CHR 0x0A] (map handler hs)"

text \<open>One module declared eagerly on one route and lazily on another.\<close>

definition eager_and_lazy :: "NitroEventHandler list" where
  "eager_and_lazy =
     [\<lparr>route = Some ''/a'', handler = ''h1'', lazy = Some False, middleware = None,
       method' = None\<rparr>,
      \<lparr>route = Some ''/b'', handler = ''h1'', lazy = Some True, middleware = None,
       method' = None\<rparr>]"

text \<open>
  Two plain routes of one module, and one declaration whose route holds a quote and
  the text that stands between the two routes in the generated array.
\<close>

definition plain_a :: NitroEventHandler where
  "plain_a = \<lparr>route = Some ''/a'', handler = ''h1'', lazy = None, middleware = None,
              method' = None\<rparr>"

definition plain_b :: NitroEventHandler where
  "plain_b = \<lparr>route = Some ''/b'', handler = ''h1'', lazy = None, middleware = None,
              method' = None\<rparr>"

definition injected_route :: "string \<Rightarrow> NitroEventHandler" where
  "injected_route ident =
     \<lparr>route = Some (''/a'' @ [CHR 0x27]
        @ '', handler: '' @ ident
        @ '', lazy: false, middleware: false, method: undefined },''
        @ [CHR 0x0A] @ ''  { route: '' @ [CHR 0x27] @ ''/b''),
      handler = ''h1'', lazy = None, middleware = None, method' = None\<rparr>"

text \<open>
  A project with no configured handler, no static middleware and no renderer: its
  handlers are the scanned ones.
\<close>

definition scanned_only :: "NitroEventHandler list \<Rightarrow> Nitro" where
  "scanned_only hs =
     \<lparr>options = sample_options\<lparr>handlers := [], serveStatic := False, renderer := None\<rparr>,
      scannedHandlers = hs\<rparr>"

text \<open>
  A hash for the examples whose value holds a dash among its first 6 characters, as a
  base64url digest may.
\<close>

definition dash_hash :: "string \<Rightarrow> string" where
  "dash_hash p = ''10mSn-q3ZxA''"

text \<open>
  A \<^verbatim>\<open>join\<close> for the examples that normalises as the one of \<^verbatim>\<open>pathe\<close> does on an
  absolute path: empty and \<open>.\<close> segments are dropped, a \<open>..\<close> segment removes the
  segment before it. With it, a project whose build directory is not normalised.
\<close>

fun split_path :: "string \<Rightarrow> string list" where
  "split_path [] = [[]]"
| "split_path (c # cs) =
     (if c = CHR ''/'' then [] # split_path cs
      else (case split_path cs of [] \<Rightarrow> [[c]] | g # gs \<Rightarrow> (c # g) # gs))"

definition push_segment :: "string list \<Rightarrow> string \<Rightarrow> string list" where
  "push_segment acc g =
     (if g = [] \<or> g = ''.'' then acc else if g = ''..'' then butlast acc else acc @ [g])"

definition normalising_join :: "string \<Rightarrow> string \<Rightarrow> string" where
  "normalising_join a b =
     CHR ''/'' # join_str ''/'' (foldl push_segment [] (split_path a @ split_path b))"

definition normalising_env :: RollupEnv where
  "normalising_env = sample_env\<lparr>join := normalising_join\<rparr>"

definition unnormalised_nitro :: Nitro where
  "unnormalised_nitro =
     sample_nitro\<lparr>options := sample_options\<lparr>buildDir := ''/app/../app/.nitro''\<rparr>\<rparr>"


section \<open>Properties of the identifier hasher\<close>

lemma getImportId_variants_differ:
  "getImportId hash p None \<noteq> getImportId hash p (Some True)"
proof
  assume eq: "getImportId hash p None = getImportId hash p (Some True)"
  then have "length (getImportId hash p None) = length (getImportId hash p (Some True))"
    by simp
  then show False
    by (simp add: getImportId_def truthy_bool_def)
qed

lemma dash_not_word: "\<not> is_word_char (CHR ''-'')"
  by (simp add: is_word_char_def is_alpha_def is_digit_def)

text \<open>
  C6. The token is the prefix and the first 6 characters of the hash as they are:
  nothing is removed from them. So a dash among those characters stays in the token,
  which is then no binding name. The binding of a plugin, in the Rollup
  configuration, has the dashes of the hash removed and never holds one.
\<close>

theorem getImportId_keeps_dash:
  "getImportId hash p v = (if truthy_bool v then ''_lazy_'' else ''_'') @ take 6 (hash p)
   \<and> (CHR ''-'' \<in> set (take 6 (hash p)) \<longrightarrow> \<not> binding_name (getImportId hash p v))
   \<and> CHR ''-'' \<notin> set (plugin_import_id hash p)"
proof -
  have "\<not> list_all is_word_char (getImportId hash p v)"
    if "CHR ''-'' \<in> set (take 6 (hash p))"
    using that dash_not_word by (auto simp: getImportId_def list_all_iff)
  then have "CHR ''-'' \<in> set (take 6 (hash p)) \<longrightarrow> \<not> binding_name (getImportId hash p v)"
    by (auto simp: binding_name_def split: list.splits)
  then show ?thesis
    by (simp add: getImportId_def plugin_import_id_def)
qed

theorem getImportId_keeps_dash_witness:
  "CHR ''-'' \<in> set (take 6 (dash_hash ''/app/routes/hello.ts''))
   \<and> getImportId dash_hash ''/app/routes/hello.ts'' None = ''_10mSn-''
   \<and> getImportId dash_hash ''/app/routes/hello.ts'' (Some True) = ''_lazy_10mSn-''
   \<and> \<not> binding_name (getImportId dash_hash ''/app/routes/hello.ts'' None)
   \<and> \<not> binding_name (getImportId dash_hash ''/app/routes/hello.ts'' (Some True))
   \<and> import_stmt dash_hash ''/app/routes/hello.ts''
       = ''import _10mSn- from '/app/routes/hello.ts';''
   \<and> plugin_import_id dash_hash ''/app/plugins/db.ts'' = ''_10mSnq3ZxA''"
proof -
  have dash: "CHR ''-'' \<in> set (take 6 (dash_hash ''/app/routes/hello.ts''))"
    by (simp add: dash_hash_def)
  have eager: "\<not> binding_name (getImportId dash_hash ''/app/routes/hello.ts'' None)"
    using dash getImportId_keeps_dash [of dash_hash "''/app/routes/hello.ts''" None]
    by blast
  have lazy: "\<not> binding_name (getImportId dash_hash ''/app/routes/hello.ts'' (Some True))"
    using dash getImportId_keeps_dash [of dash_hash "''/app/routes/hello.ts''" "Some True"]
    by blast
  have texts: "getImportId dash_hash ''/app/routes/hello.ts'' None = ''_10mSn-''"
    "getImportId dash_hash ''/app/routes/hello.ts'' (Some True) = ''_lazy_10mSn-''"
    "import_stmt dash_hash ''/app/routes/hello.ts''
       = ''import _10mSn- from '/app/routes/hello.ts';''"
    "plugin_import_id dash_hash ''/app/plugins/db.ts'' = ''_10mSnq3ZxA''"
    by (simp_all add: getImportId_def import_stmt_def plugin_import_id_def dash_hash_def
        truthy_bool_def)
  show ?thesis
    using dash eager lazy texts by (intro conjI)
qed


section \<open>Properties of the no-externals plugin\<close>

text \<open>
  C9. With Node support enabled, an import id that starts with \<open>node:\<close> or is one of
  the builtin modules is returned as external at once: the result is
  \<^verbatim>\<open>{ id, external: true }\<close> whatever the two resolvers would answer, and it is never
  the error.
\<close>

theorem resolveId_builtin:
  assumes "node (options nitro)"
    and "startsWith mid ''node:'' \<or> mid \<in> set (builtinModules env)"
  shows "resolveId env nitro mid importer = Return mid True
    \<and> resolveId (env\<lparr>resolveModulePath := f, this_resolve := g\<rparr>) nitro mid importer
        = Return mid True
    \<and> resolveId env nitro mid importer \<noteq> Throw msg"
  using assms by (simp add: resolveId_def)

theorem resolveId_builtin_witness:
  "node (options sample_nitro)
   \<and> startsWith ''node:fs'' ''node:''
   \<and> ''path'' \<in> set (builtinModules sample_env)
   \<and> this_resolve sample_env ''path'' None = None
   \<and> resolveModulePath sample_env ''path'' (fallback_options sample_env sample_nitro None) = None
   \<and> resolveId sample_env sample_nitro ''node:fs'' None = Return ''node:fs'' True
   \<and> resolveId sample_env sample_nitro ''path'' None = Return ''path'' True"
  using resolveId_builtin [of sample_nitro "''node:fs''" sample_env None]
    resolveId_builtin [of sample_nitro "''path''" sample_env None]
  by (simp add: sample_nitro_def sample_options_def sample_env_def nothing_found_def
      nothing_resolved_def)


text \<open>
  C3. For an import id that the builtin guard does not return: when the primary
  resolver finds nothing, \<^verbatim>\<open>resolveModulePath\<close> is called with the id, with the
  importer's file URL before the module-search directories when the importer is an
  absolute path (the directories alone otherwise), with the suffixes \<open>""\<close> and
  \<open>"/index"\<close> and the fixed extensions; what it finds is returned as not external. When
  it finds nothing, or when the primary resolver's answer is flagged external and the
  id does not end in \<open>.wasm\<close>, the result is the error whose message holds
  \<^verbatim>\<open>JSON.stringify\<close> of the id and of the importer. Otherwise nothing is returned.
\<close>

theorem resolveId_strict:
  assumes "\<not> (node (options nitro)
             \<and> (startsWith mid ''node:'' \<or> mid \<in> set (builtinModules env)))"
  shows "resolveId env nitro mid importer =
     (let message = ''Cannot resolve '' @ JSON_stringify (Some mid) @ '' from ''
                    @ JSON_stringify importer @ '' and externals are not allowed!''
      in case this_resolve env mid importer of
           None \<Rightarrow>
             (case resolveModulePath env mid
                     \<lparr>opt_try = True,
                      opt_from =
                        (case importer of
                           None \<Rightarrow> nodeModulesDirs (options nitro)
                         | Some i \<Rightarrow>
                             if i \<noteq> [] \<and> isAbsolute env i
                             then pathToFileURL env i # nodeModulesDirs (options nitro)
                             else nodeModulesDirs (options nitro)),
                      opt_suffixes = ['''', ''/index''],
                      opt_extensions =
                        [''.mjs'', ''.cjs'', ''.js'', ''.mts'', ''.cts'', ''.ts'', ''.json''],
                      opt_conditions =
                        [''default'',
                         if dev (options nitro) then ''development'' else ''production'',
                         ''node'', ''import'', ''require'']\<rparr> of
                None \<Rightarrow> Throw message
              | Some p \<Rightarrow> if p = [] then Throw message else Return p False)
         | Some r \<Rightarrow>
             if external r \<and> \<not> endsWith mid ''.wasm'' then Throw message
             else ReturnUndefined)"
proof -
  have guard: "\<not> (node (options nitro)
                  \<and> (startsWith mid ''node:'' \<or> mid \<in> set (builtinModules env)))"
    using assms .
  show ?thesis
  proof (cases "this_resolve env mid importer")
    case None
    then show ?thesis
      using guard
      by (simp add: resolveId_def fallback_options_def cannot_resolve_def Let_def
          split: option.splits)
  next
    case (Some r)
    then show ?thesis
      using guard
      by (auto simp: resolveId_def cannot_resolve_def Let_def)
  qed
qed

theorem resolveId_strict_witness:
  "\<not> (node (options sample_nitro)
       \<and> (startsWith ''left-pad'' ''node:'' \<or> ''left-pad'' \<in> set (builtinModules sample_env)))
   \<and> resolveId sample_env sample_nitro ''left-pad'' (Some ''/app/server.ts'')
       = Throw (''Cannot resolve '' @ [CHR 0x22] @ ''left-pad'' @ [CHR 0x22] @ '' from ''
                @ [CHR 0x22] @ ''/app/server.ts'' @ [CHR 0x22]
                @ '' and externals are not allowed!'')
   \<and> resolveId fallback_env sample_nitro ''left-pad'' (Some ''/app/server.ts'')
       = Return ''file:///app/server.ts/left-pad/index.mjs'' False
   \<and> resolveId fallback_env sample_nitro ''left-pad'' (Some ''server.ts'')
       = Return ''/app/node_modules/left-pad/index.mjs'' False
   \<and> resolveId external_env sample_nitro ''left-pad'' (Some ''/app/server.ts'')
       = Throw (''Cannot resolve '' @ [CHR 0x22] @ ''left-pad'' @ [CHR 0x22] @ '' from ''
                @ [CHR 0x22] @ ''/app/server.ts'' @ [CHR 0x22]
                @ '' and externals are not allowed!'')
   \<and> resolveId external_env sample_nitro ''./mod.wasm'' None = ReturnUndefined"
proof -
  have builtins: "builtinModules sample_env = [''fs'', ''path'', ''node:test'']"
    "builtinModules fallback_env = [''fs'', ''path'', ''node:test'']"
    "builtinModules external_env = [''fs'', ''path'', ''node:test'']"
    by (simp_all add: sample_env_def fallback_env_def external_env_def)
  have g1: "\<not> (node (options sample_nitro)
       \<and> (startsWith ''left-pad'' ''node:'' \<or> ''left-pad'' \<in> set (builtinModules sample_env)))"
    by (simp add: builtins)
  have g2: "\<not> (node (options sample_nitro)
       \<and> (startsWith ''left-pad'' ''node:'' \<or> ''left-pad'' \<in> set (builtinModules fallback_env)))"
    by (simp add: builtins)
  have g3: "\<not> (node (options sample_nitro)
       \<and> (startsWith ''left-pad'' ''node:'' \<or> ''left-pad'' \<in> set (builtinModules external_env)))"
    by (simp add: builtins)
  have g4: "\<not> (node (options sample_nitro)
       \<and> (startsWith ''./mod.wasm'' ''node:'' \<or> ''./mod.wasm'' \<in> set (builtinModules external_env)))"
    by (simp add: builtins)
  show ?thesis
    using g1 resolveId_strict [OF g1, of "Some ''/app/server.ts''"]
      resolveId_strict [OF g2, of "Some ''/app/server.ts''"]
      resolveId_strict [OF g2, of "Some ''server.ts''"]
      resolveId_strict [OF g3, of "Some ''/app/server.ts''"]
      resolveId_strict [OF g4, of None]
    by (simp add: sample_env_def fallback_env_def external_env_def sample_nitro_def
        sample_options_def nothing_found_def nothing_resolved_def resolved_external_def
        found_in_first_dir_def sample_isAbsolute_def sample_pathToFileURL_def
        JSON_stringify_def json_escape_def endsWith_def)
qed


section \<open>Properties of the server-handlers generator\<close>

text \<open>
  C8. With \<^verbatim>\<open>lastDump\<close> as explicit state: a call of the generator prints the dump
  of the handler table exactly when debug mode is on, the dump differs from the stored
  one and the table is not empty, and then it prints it once. The stored dump becomes
  the new dump when debug mode is on and they differ, and stays otherwise. A call right
  after a debug call, on the same table, prints nothing. The generated source is the
  same whatever the debug flag, the dump function and the stored dump.
\<close>

theorem debug_dump_only_on_change:
  "printed (server_handlers hash dump dbg nitro prev)
     = (if dbg \<and> dump (handler_table nitro) \<noteq> prev \<and> handler_table nitro \<noteq> []
        then [dump (handler_table nitro)] else [])
   \<and> lastDump (server_handlers hash dump dbg nitro prev)
     = (if dbg \<and> dump (handler_table nitro) \<noteq> prev then dump (handler_table nitro) else prev)
   \<and> printed (server_handlers hash dump dbg2 nitro
               (lastDump (server_handlers hash dump True nitro prev))) = []
   \<and> source (server_handlers hash dump dbg nitro prev)
     = source (server_handlers hash dump2 dbg2 nitro prev2)"
  by (simp add: server_handlers_def Let_def)

theorem debug_dump_only_on_change_witness:
  "handler_table sample_nitro \<noteq> []
   \<and> sample_dump (handler_table sample_nitro) \<noteq> []
   \<and> printed (server_handlers sample_hash sample_dump True sample_nitro [])
       = [sample_dump (handler_table sample_nitro)]
   \<and> printed (server_handlers sample_hash sample_dump False sample_nitro []) = []
   \<and> printed (server_handlers sample_hash sample_dump True sample_nitro
                (lastDump (server_handlers sample_hash sample_dump True sample_nitro []))) = []
   \<and> printed (server_handlers sample_hash sample_dump True (sample_nitro\<lparr>options := sample_options\<lparr>handlers := [], serveStatic := False, renderer := None\<rparr>, scannedHandlers := []\<rparr>) ''x'') = []"
proof -
  have t: "handler_table sample_nitro \<noteq> []"
    by (simp add: handler_table_def sample_nitro_def sample_options_def Let_def)
  have d: "sample_dump (handler_table sample_nitro) \<noteq> []"
    by (simp add: handler_table_def sample_nitro_def sample_options_def Let_def sample_dump_def
        static_entry_def)
  have e: "handler_table (sample_nitro\<lparr>options := sample_options\<lparr>handlers := [], serveStatic := False, renderer := None\<rparr>, scannedHandlers := []\<rparr>) = []"
    by (simp add: handler_table_def Let_def)
  show ?thesis
    using t d e
      debug_dump_only_on_change [of sample_hash sample_dump True sample_nitro "[]"]
      debug_dump_only_on_change [of sample_hash sample_dump False sample_nitro "[]"]
      debug_dump_only_on_change [of sample_hash sample_dump True "sample_nitro\<lparr>options := sample_options\<lparr>handlers := [], serveStatic := False, renderer := None\<rparr>, scannedHandlers := []\<rparr>" "''x''"]
    by simp
qed


subsection \<open>The shape of the generated source\<close>

lemma dropWhile_append_stop:
  "ys \<noteq> [] \<Longrightarrow> \<not> P (hd ys) \<Longrightarrow> dropWhile P (xs @ ys) = dropWhile P xs @ ys"
  by (induction xs) (auto simp: neq_Nil_conv)

lemma trim_inner:
  assumes "b \<noteq> []" and "\<not> js_space (hd b)" and "\<not> js_space (last b)"
    and "list_all js_space t"
  shows "trim (a @ b @ t) = trimStart a @ b"
proof -
  have front: "dropWhile js_space (a @ b @ t) = dropWhile js_space a @ b @ t"
    using assms(1,2) by (simp add: dropWhile_append_stop)
  have "rev (dropWhile js_space a @ b @ t) = rev t @ rev (dropWhile js_space a @ b)"
    by simp
  moreover have "dropWhile js_space (rev t @ rev (dropWhile js_space a @ b))
      = dropWhile js_space (rev (dropWhile js_space a @ b))"
    using assms(4) by (intro dropWhile_append2) (simp add: list_all_iff)
  moreover have "dropWhile js_space (rev (dropWhile js_space a @ b))
      = rev (dropWhile js_space a @ b)"
    using assms(1,3) by (cases b rule: rev_cases) auto
  ultimately show ?thesis
    by (simp add: trim_def trimStart_def front)
qed

lemma array_text_ends:
  "array_text hash hs \<noteq> [] \<and> hd (array_text hash hs) = CHR ''e''
   \<and> last (array_text hash hs) = CHR '';''"
  by (simp add: array_text_def)

lemma code_shape: "code hash hs = trimStart (imports_text hash hs) @ array_text hash hs"
proof -
  have "trim (imports_text hash hs @ array_text hash hs @ [CHR 0x0A] @ ''  '')
      = trimStart (imports_text hash hs) @ array_text hash hs"
    by (rule trim_inner) (simp_all add: array_text_ends js_space_def)
  then show ?thesis
    by (simp add: code_def)
qed

lemma handler_table_composition:
  "handler_table nitro
     = (if serveStatic (options nitro) then [static_entry] else [])
       @ scannedHandlers nitro
       @ map infer_method (handlers (options nitro))
       @ (case renderer (options nitro) of
            None \<Rightarrow> []
          | Some r \<Rightarrow> if r = [] then [] else [renderer_entry r])"
  by (simp add: handler_table_def Let_def split: option.splits)

lemma source_scanned_only:
  "source (server_handlers hash dump dbg (scanned_only hs) prev) = code hash hs"
  by (simp add: server_handlers_def Let_def handler_table_composition scanned_only_def
      split: prod.splits)


subsection \<open>Eager and lazy imports\<close>

text \<open>
  C1. The source comments on the two import lists: \<^verbatim>\<open>// Imports take priority\<close> and
  \<^verbatim>\<open>// Lazy imports should fill in the gaps\<close>. The list of lazy imports is not
  filtered by the eager ones, though. For the scenario of the spec, one module on an
  eager route and on a lazy route, the generated source holds the static import and
  the thunk of that module, under two different bindings, and the row of the lazy route
  names the lazy binding: the eager import does not win. This is so for every hash
  function.
\<close>

theorem eager_import_does_not_win:
  "handler_table (scanned_only eager_and_lazy) = eager_and_lazy
   \<and> imports_list eager_and_lazy = [''h1'']
   \<and> lazyImports eager_and_lazy = [''h1'']
   \<and> getImportId hash ''h1'' None \<noteq> getImportId hash ''h1'' (Some True)
   \<and> source (server_handlers hash dump dbg (scanned_only eager_and_lazy) prev)
       = ''import '' @ getImportId hash ''h1'' None @ '' from 'h1';\<newline>\<newline>const ''
         @ getImportId hash ''h1'' (Some True)
         @ '' = () => import('h1');\<newline>\<newline>export const handlers = [\<newline>  { route: '/a', handler: ''
         @ getImportId hash ''h1'' None
         @ '', lazy: false, middleware: false, method: undefined },\<newline>  { route: '/b', handler: ''
         @ getImportId hash ''h1'' (Some True)
         @ '', lazy: true, middleware: false, method: undefined }\<newline>];''"
proof -
  have table: "handler_table (scanned_only eager_and_lazy) = eager_and_lazy"
    by (simp add: handler_table_composition scanned_only_def)
  have lists: "imports_list eager_and_lazy = [''h1'']" "lazyImports eager_and_lazy = [''h1'']"
    by (simp_all add: imports_list_def lazyImports_def eager_and_lazy_def truthy_bool_def
        unique_def set_add_def)
  have header: "trimStart (imports_text hash eager_and_lazy)
      = ''import '' @ getImportId hash ''h1'' None @ '' from 'h1';\<newline>\<newline>const ''
        @ getImportId hash ''h1'' (Some True) @ '' = () => import('h1');\<newline>\<newline>''"
    by (simp add: imports_text_def lists import_stmt_def lazy_stmt_def trimStart_def js_space_def)
  have same: "getImportId hash ''h1'' (Some False) = getImportId hash ''h1'' None"
    by (simp add: getImportId_def truthy_bool_def)
  have array: "array_text hash eager_and_lazy
      = ''export const handlers = [\<newline>  { route: '/a', handler: ''
        @ getImportId hash ''h1'' None
        @ '', lazy: false, middleware: false, method: undefined },\<newline>  { route: '/b', handler: ''
        @ getImportId hash ''h1'' (Some True)
        @ '', lazy: true, middleware: false, method: undefined }\<newline>];''"
    by (simp add: array_text_def eager_and_lazy_def row_def same route_or_empty_def truthy_bool_def
        js_bool_def JSON_stringify_def)
  have "source (server_handlers hash dump dbg (scanned_only eager_and_lazy) prev)
      = trimStart (imports_text hash eager_and_lazy) @ array_text hash eager_and_lazy"
    by (simp add: source_scanned_only code_shape)
  then show ?thesis
    using table lists getImportId_variants_differ [of hash "''h1''"]
    by (simp add: header array)
qed


subsection \<open>Method inference\<close>

lemma startsWith_iff: "startsWith s p \<longleftrightarrow> (\<exists>r. s = p @ r)"
  by (induction s p rule: startsWith.induct) auto

lemma run_then_stop:
  assumes "list_all P w" and "r = [] \<or> \<not> P (hd r)"
  shows "takeWhile P (w @ r) = w" and "dropWhile P (w @ r) = r"
proof -
  have all: "\<forall>x \<in> set w. P x"
    using assms(1) by (simp add: list_all_iff)
  show "takeWhile P (w @ r) = w"
  proof (cases r)
    case Nil
    then show ?thesis using all by simp
  next
    case (Cons y ys)
    then show ?thesis using all assms(2) by (simp add: takeWhile_tail)
  qed
  show "dropWhile P (w @ r) = r"
  proof (cases r)
    case Nil
    then show ?thesis using all by simp
  next
    case (Cons y ys)
    then show ?thesis using all assms(2) by (simp add: dropWhile_append2)
  qed
qed













section \<open>Properties of the chunk names\<close>

lemma prefix_loop_first:
  "i < length t \<Longrightarrow> startsWith mid (fst (t ! i))
     \<Longrightarrow> \<forall>j<i. \<not> startsWith mid (fst (t ! j))
     \<Longrightarrow> prefix_loop t mid = Some (chunk_file (snd (t ! i)))"
proof (induction t arbitrary: i)
  case Nil
  then show ?case by simp
next
  case (Cons p t)
  obtain dir name where p: "p = (dir, name)"
    by (cases p)
  show ?case
  proof (cases i)
    case 0
    then show ?thesis
      using Cons.prems p by simp
  next
    case (Suc k)
    then have "\<not> startsWith mid dir"
      using Cons.prems(3) p by force
    moreover have "prefix_loop t mid = Some (chunk_file (snd (t ! k)))"
      using Cons.prems Suc by (intro Cons.IH) auto
    ultimately show ?thesis
      using p Suc by simp
  qed
qed

lemma prefix_loop_none:
  "\<forall>p \<in> set t. \<not> startsWith mid (fst p) \<Longrightarrow> prefix_loop t mid = None"
  by (induction t mid rule: prefix_loop.induct) auto

lemma prefix_loop_some:
  "prefix_loop t mid = Some f \<Longrightarrow> \<exists>p \<in> set t. f = chunk_file (snd p) \<and> startsWith mid (fst p)"
  by (induction t mid rule: prefix_loop.induct) (auto split: if_splits)

lemma find_append_first:
  "find P (xs @ ys) = (case find P xs of Some x \<Rightarrow> Some x | None \<Rightarrow> find P ys)"
  by (induction xs) auto

lemma routeHandler_find:
  "routeHandler nitro mid
     = find (\<lambda>h. startsWith mid (handler h)) (handlers (options nitro) @ scannedHandlers nitro)"
  by (simp add: routeHandler_def find_append_first)

lemma taskHandler_iff:
  "taskHandler nitro mid \<noteq> None \<longleftrightarrow> (\<exists>name. (name, mid) \<in> set (tasks (options nitro)))"
  by (auto simp: taskHandler_def find_None_iff)

lemma replace_params_plain:
  "list_all (\<lambda>c. c \<noteq> CHR '':'') s \<Longrightarrow> replace_params (s @ rest) = s @ replace_params rest"
  by (induction s) auto

lemma route_of_start: "route_of segs = [] \<or> \<not> not_slash (hd (route_of segs))"
  by (cases segs) (simp_all add: route_of_def not_slash_def)

lemma replace_params_route:
  "list_all segment_ok segs \<Longrightarrow> replace_params (route_of segs) = chunk_dir_of segs"
proof (induction segs)
  case Nil
  then show ?case by (simp add: route_of_def chunk_dir_of_def)
next
  case (Cons g segs)
  then have rest: "replace_params (route_of segs) = chunk_dir_of segs"
    by simp
  have r: "route_of (a # segs) = CHR ''/'' # segment_text a @ route_of segs"
    and d: "chunk_dir_of (a # segs) = CHR ''/'' # segment_chunk a @ chunk_dir_of segs" for a
    by (simp_all add: route_of_def chunk_dir_of_def)
  show ?case
  proof (cases g)
    case (Plain s)
    then have "list_all (\<lambda>c. c \<noteq> CHR '':'') s"
      using Cons.prems by (simp add: list_all_iff)
    then show ?thesis
      using Plain rest by (simp add: r d replace_params_plain)
  next
    case (Param x)
    then have x: "x \<noteq> []" "list_all not_slash x"
      using Cons.prems by simp_all
    have "takeWhile not_slash (x @ route_of segs) = x"
      and "dropWhile not_slash (x @ route_of segs) = route_of segs"
      using run_then_stop [OF x(2) route_of_start [of segs]] by simp_all
    then show ?thesis
      using Param rest x(1) by (simp add: r d)
  qed
qed

lemma strip_last_segment_last:
  "t \<noteq> [] \<Longrightarrow> list_all not_slash t \<Longrightarrow> strip_last_segment (pre @ CHR ''/'' # t) = pre"
  by (induction pre) (auto simp: not_slash_def)

lemma segment_chunk_ok:
  "segment_ok g \<Longrightarrow> segment_chunk g \<noteq> [] \<and> list_all not_slash (segment_chunk g)"
  by (cases g) (auto simp: not_slash_def list_all_iff)

lemma route_path_segments:
  assumes "list_all segment_ok segs"
  shows "route_path (route_of segs)
     = (if length segs \<le> 1 then ''/'' else chunk_dir_of (butlast segs))"
proof (cases segs rule: rev_cases)
  case Nil
  then show ?thesis
    by (simp add: route_path_def route_of_def)
next
  case (snoc front g)
  then have g: "segment_chunk g \<noteq> []" "list_all not_slash (segment_chunk g)"
    using assms segment_chunk_ok by auto
  have "chunk_dir_of segs = chunk_dir_of front @ CHR ''/'' # segment_chunk g"
    using snoc by (simp add: chunk_dir_of_def)
  then have "strip_last_segment (replace_params (route_of segs)) = chunk_dir_of front"
    using strip_last_segment_last [OF g] replace_params_route [OF assms] by simp
  moreover have "chunk_dir_of front = [] \<longleftrightarrow> front = []"
    by (cases front) (simp_all add: chunk_dir_of_def)
  ultimately show ?thesis
    using snoc by (auto simp: route_path_def Let_def)
qed

text \<open>
  C4. The chunk name always has the form \<open>chunks/<group>/[name].mjs\<close>. The prefix
  table is the list below, and the first entry whose directory is a prefix of the
  module path decides. When no entry matches, the owner is the first configured
  handler whose path is a prefix of the module path, or else the first such scanned
  handler; if it has a non-empty route, the group is \<open>routes\<close> and the path derived
  from the route. Otherwise a task whose handler is the module path gives \<open>tasks\<close>, and
  anything else the group \<open>_\<close>. For a route of segments, parameter segments \<open>:x\<close>
  become \<open>_x\<close> and the last segment is dropped; nothing left is \<open>/\<close>.
\<close>

theorem getChunkName_resolution_order:
  "(\<exists>group. getChunkName env nitro mid = ''chunks/'' @ group @ ''/[name].mjs'')
   \<and> chunkNamePrefixes env nitro
       = [(buildDir (options nitro), ''build''),
          (join env (buildDir (options nitro)) ''dist/server'', ''app''),
          (runtimeDir env, ''nitro''),
          (resolve env (runtimeDir env) ''../presets'', ''nitro''),
          (CHR 0x00 # ''raw:'', ''raw''),
          (CHR 0x00 # ''nitro-wasm:'', ''wasm''),
          ([CHR 0x00], ''virtual'')]
   \<and> (\<forall>i < length (chunkNamePrefixes env nitro).
          startsWith mid (fst (chunkNamePrefixes env nitro ! i))
          \<and> (\<forall>j<i. \<not> startsWith mid (fst (chunkNamePrefixes env nitro ! j)))
          \<longrightarrow> getChunkName env nitro mid
                = ''chunks/'' @ snd (chunkNamePrefixes env nitro ! i) @ ''/[name].mjs'')
   \<and> routeHandler nitro mid
       = find (\<lambda>h. startsWith mid (handler h)) (handlers (options nitro) @ scannedHandlers nitro)
   \<and> ((\<forall>p \<in> set (chunkNamePrefixes env nitro). \<not> startsWith mid (fst p)) \<longrightarrow>
         (\<forall>h r. routeHandler nitro mid = Some h \<and> route h = Some r \<and> r \<noteq> []
            \<longrightarrow> getChunkName env nitro mid = ''chunks/routes'' @ route_path r @ ''/[name].mjs'')
         \<and> ((\<forall>h. routeHandler nitro mid = Some h \<longrightarrow> \<not> truthy_str (route h)) \<longrightarrow>
               ((\<exists>name. (name, mid) \<in> set (tasks (options nitro)))
                  \<longrightarrow> getChunkName env nitro mid = ''chunks/tasks/[name].mjs'')
               \<and> ((\<forall>name. (name, mid) \<notin> set (tasks (options nitro)))
                  \<longrightarrow> getChunkName env nitro mid = ''chunks/_/[name].mjs'')))
   \<and> (list_all segment_ok segs \<longrightarrow>
         route_path (route_of segs)
           = (if length segs \<le> 1 then ''/'' else chunk_dir_of (butlast segs)))"
proof -
  have form: "\<exists>group. getChunkName env nitro mid = ''chunks/'' @ group @ ''/[name].mjs''"
  proof (cases "prefix_loop (chunkNamePrefixes env nitro) mid")
    case (Some f)
    then obtain p :: "string \<times> string" where "f = chunk_file (snd p)"
      using prefix_loop_some by blast
    then have "getChunkName env nitro mid = ''chunks/'' @ snd p @ ''/[name].mjs''"
      using Some by (simp add: getChunkName_def chunk_file_def)
    then show ?thesis by blast
  next
    case None
    have tasks: "\<exists>group. task_or_unknown nitro mid = ''chunks/'' @ group @ ''/[name].mjs''"
    proof (cases "taskHandler nitro mid")
      case None
      then have "task_or_unknown nitro mid = ''chunks/'' @ ''_'' @ ''/[name].mjs''"
        by (simp add: task_or_unknown_def)
      then show ?thesis by blast
    next
      case (Some t)
      then have "task_or_unknown nitro mid = ''chunks/'' @ ''tasks'' @ ''/[name].mjs''"
        by (simp add: task_or_unknown_def)
      then show ?thesis by blast
    qed
    have routes: "\<exists>group. ''chunks/routes'' @ route_path r @ ''/[name].mjs''
        = ''chunks/'' @ group @ ''/[name].mjs''" for r
      by (intro exI [of _ "''routes'' @ route_path r"]) simp
    show ?thesis
      using None tasks routes
      by (auto simp: getChunkName_def split: option.splits)
  qed
  have table: "chunkNamePrefixes env nitro
       = [(buildDir (options nitro), ''build''),
          (join env (buildDir (options nitro)) ''dist/server'', ''app''),
          (runtimeDir env, ''nitro''),
          (resolve env (runtimeDir env) ''../presets'', ''nitro''),
          (CHR 0x00 # ''raw:'', ''raw''),
          (CHR 0x00 # ''nitro-wasm:'', ''wasm''),
          ([CHR 0x00], ''virtual'')]"
    by (simp add: chunkNamePrefixes_def buildServerDir_def presetsDir_def)
  have first: "\<forall>i < length (chunkNamePrefixes env nitro).
          startsWith mid (fst (chunkNamePrefixes env nitro ! i))
          \<and> (\<forall>j<i. \<not> startsWith mid (fst (chunkNamePrefixes env nitro ! j)))
          \<longrightarrow> getChunkName env nitro mid
                = ''chunks/'' @ snd (chunkNamePrefixes env nitro ! i) @ ''/[name].mjs''"
    using prefix_loop_first [of _ "chunkNamePrefixes env nitro" mid]
    by (auto simp: getChunkName_def chunk_file_def)
  have after: "(\<forall>h r. routeHandler nitro mid = Some h \<and> route h = Some r \<and> r \<noteq> []
            \<longrightarrow> getChunkName env nitro mid = ''chunks/routes'' @ route_path r @ ''/[name].mjs'')
         \<and> ((\<forall>h. routeHandler nitro mid = Some h \<longrightarrow> \<not> truthy_str (route h)) \<longrightarrow>
               ((\<exists>name. (name, mid) \<in> set (tasks (options nitro)))
                  \<longrightarrow> getChunkName env nitro mid = ''chunks/tasks/[name].mjs'')
               \<and> ((\<forall>name. (name, mid) \<notin> set (tasks (options nitro)))
                  \<longrightarrow> getChunkName env nitro mid = ''chunks/_/[name].mjs''))"
    if none: "\<forall>p \<in> set (chunkNamePrefixes env nitro). \<not> startsWith mid (fst p)"
  proof -
    have loop: "prefix_loop (chunkNamePrefixes env nitro) mid = None"
      using none by (rule prefix_loop_none)
    have t1: "(\<exists>name. (name, mid) \<in> set (tasks (options nitro)))
        \<Longrightarrow> task_or_unknown nitro mid = ''chunks/tasks/[name].mjs''"
      using taskHandler_iff [of nitro mid]
      by (auto simp: task_or_unknown_def split: option.splits)
    have t2: "(\<forall>name. (name, mid) \<notin> set (tasks (options nitro)))
        \<Longrightarrow> task_or_unknown nitro mid = ''chunks/_/[name].mjs''"
      using taskHandler_iff [of nitro mid]
      by (auto simp: task_or_unknown_def split: option.splits)
    have fall: "(\<forall>h. routeHandler nitro mid = Some h \<longrightarrow> \<not> truthy_str (route h))
        \<Longrightarrow> getChunkName env nitro mid = task_or_unknown nitro mid"
      by (auto simp: getChunkName_def loop truthy_str_def split: option.splits)
    have owned: "routeHandler nitro mid = Some h \<Longrightarrow> route h = Some r \<Longrightarrow> r \<noteq> []
        \<Longrightarrow> getChunkName env nitro mid = ''chunks/routes'' @ route_path r @ ''/[name].mjs''"
      for h r
      by (simp add: getChunkName_def loop)
    show ?thesis
      using t1 t2 fall owned by (intro conjI allI impI) (blast, simp, simp)
  qed
  show ?thesis
    using form table first routeHandler_find [of nitro mid] after route_path_segments [of segs]
    by (intro conjI impI) (assumption | blast)+
qed


theorem getChunkName_resolution_order_witness:
  "getChunkName sample_env sample_nitro ''/app/.nitro/types/nitro.d.ts'' = ''chunks/build/[name].mjs''
   \<and> getChunkName sample_env sample_nitro ''/app/node_modules/nitropack/dist/runtime/app.mjs''
       = ''chunks/nitro/[name].mjs''
   \<and> getChunkName sample_env sample_nitro (CHR 0x00 # ''raw:logo.svg'') = ''chunks/raw/[name].mjs''
   \<and> getChunkName sample_env sample_nitro (CHR 0x00 # ''virtual:polyfill'')
       = ''chunks/virtual/[name].mjs''
   \<and> getChunkName sample_env sample_nitro ''/app/handlers/users.get.ts''
       = ''chunks/routes/api/users/[name].mjs''
   \<and> getChunkName sample_env sample_nitro ''/app/routes/hello.ts'' = ''chunks/routes//[name].mjs''
   \<and> getChunkName sample_env sample_nitro ''/app/tasks/db/migrate.ts'' = ''chunks/tasks/[name].mjs''
   \<and> getChunkName sample_env sample_nitro ''/app/lib/util.ts'' = ''chunks/_/[name].mjs''
   \<and> list_all segment_ok [Plain ''api'', Plain ''users'', Param ''id'']
   \<and> route_of [Plain ''api'', Plain ''users'', Param ''id''] = ''/api/users/:id''
   \<and> route_path ''/api/users/:id'' = ''/api/users''"
proof -
  have table: "chunkNamePrefixes sample_env sample_nitro
       = [(''/app/.nitro'', ''build''),
          (''/app/.nitro/dist/server'', ''app''),
          (''/app/node_modules/nitropack/dist/runtime'', ''nitro''),
          (''/app/node_modules/nitropack/dist/presets'', ''nitro''),
          (CHR 0x00 # ''raw:'', ''raw''),
          (CHR 0x00 # ''nitro-wasm:'', ''wasm''),
          ([CHR 0x00], ''virtual'')]"
    by (simp add: chunkNamePrefixes_def buildServerDir_def presetsDir_def sample_env_def
        sample_nitro_def sample_options_def sample_join_def sample_resolve_def)
  have segs: "list_all segment_ok [Plain ''api'', Plain ''users'', Param ''id'']"
    "route_of [Plain ''api'', Plain ''users'', Param ''id''] = ''/api/users/:id''"
    by (simp_all add: route_of_def not_slash_def)
  have path: "route_path ''/api/users/:id'' = ''/api/users''"
    using segs
      getChunkName_resolution_order [of sample_env sample_nitro "[]"
        "[Plain ''api'', Plain ''users'', Param ''id'']"]
    by (simp add: chunk_dir_of_def)
  have build: "getChunkName sample_env sample_nitro ''/app/.nitro/types/nitro.d.ts''
      = ''chunks/build/[name].mjs''"
  proof -
    have "\<forall>i < length (chunkNamePrefixes sample_env sample_nitro).
          startsWith ''/app/.nitro/types/nitro.d.ts'' (fst (chunkNamePrefixes sample_env sample_nitro ! i))
          \<and> (\<forall>j<i. \<not> startsWith ''/app/.nitro/types/nitro.d.ts''
                      (fst (chunkNamePrefixes sample_env sample_nitro ! j)))
          \<longrightarrow> getChunkName sample_env sample_nitro ''/app/.nitro/types/nitro.d.ts''
                = ''chunks/'' @ snd (chunkNamePrefixes sample_env sample_nitro ! i) @ ''/[name].mjs''"
      using getChunkName_resolution_order [of sample_env sample_nitro
          "''/app/.nitro/types/nitro.d.ts''" "[]"]
      by (elim conjE)
    from this [rule_format, of 0] show ?thesis
      by (simp add: table)
  qed
  have rest: "getChunkName sample_env sample_nitro ''/app/node_modules/nitropack/dist/runtime/app.mjs''
       = ''chunks/nitro/[name].mjs''"
    "getChunkName sample_env sample_nitro (CHR 0x00 # ''raw:logo.svg'') = ''chunks/raw/[name].mjs''"
    "getChunkName sample_env sample_nitro (CHR 0x00 # ''virtual:polyfill'')
       = ''chunks/virtual/[name].mjs''"
    by (simp_all add: getChunkName_def table chunk_file_def)
  have fields: "handlers (options sample_nitro)
       = [\<lparr>route = Some ''/api/users/:id'', handler = ''/app/handlers/users.get.ts'',
           lazy = Some True, middleware = None, method' = None\<rparr>]"
    "scannedHandlers sample_nitro
       = [\<lparr>route = Some ''/hello'', handler = ''/app/routes/hello.ts'', lazy = None,
           middleware = None, method' = None\<rparr>]"
    "tasks (options sample_nitro) = [(''db:migrate'', ''/app/tasks/db/migrate.ts'')]"
    by (simp_all add: sample_nitro_def sample_options_def)
  have owner: "getChunkName sample_env sample_nitro ''/app/handlers/users.get.ts''
       = ''chunks/routes'' @ route_path ''/api/users/:id'' @ ''/[name].mjs''"
    "getChunkName sample_env sample_nitro ''/app/routes/hello.ts''
       = ''chunks/routes'' @ route_path ''/hello'' @ ''/[name].mjs''"
    "getChunkName sample_env sample_nitro ''/app/tasks/db/migrate.ts'' = ''chunks/tasks/[name].mjs''"
    "getChunkName sample_env sample_nitro ''/app/lib/util.ts'' = ''chunks/_/[name].mjs''"
    by (simp_all add: getChunkName_def table routeHandler_def task_or_unknown_def taskHandler_def
        fields del: replace_params.simps)
  have hello: "route_path ''/hello'' = ''/''"
    by (simp add: route_path_def not_slash_def)
  show ?thesis
    using segs path build rest owner hello by simp
qed

lemma startsWith_self: "startsWith s s"
  by (simp add: startsWith_iff)

lemma app_rule_never:
  assumes "startsWith (buildServerDir env nitro) (buildDir (options nitro))"
  shows "getChunkName env nitro mid \<noteq> ''chunks/app/[name].mjs''"
proof -
  have trans: "startsWith mid (buildServerDir env nitro) \<Longrightarrow> startsWith mid (buildDir (options nitro))"
    using assms by (auto simp: startsWith_iff)
  have task: "task_or_unknown nitro mid \<noteq> ''chunks/app/[name].mjs''"
    by (simp add: task_or_unknown_def split: option.splits)
  show ?thesis
  proof (cases "startsWith mid (buildDir (options nitro))")
    case True
    then show ?thesis
      by (simp add: getChunkName_def chunkNamePrefixes_def chunk_file_def)
  next
    case False
    then have "\<not> startsWith mid (buildServerDir env nitro)"
      using trans by blast
    then show ?thesis
      using False task
      by (auto simp: getChunkName_def chunkNamePrefixes_def chunk_file_def split: option.splits)
  qed
qed

text \<open>
  C10, as the code has it. The server build directory is \<^verbatim>\<open>join(buildDir,
  "dist/server")\<close>, with the \<^verbatim>\<open>join\<close> of \<^verbatim>\<open>pathe\<close>, a parameter. A module path that
  starts with it is in the group \<open>build\<close> when it starts with the build directory too,
  and in the group \<open>app\<close> when it does not. Where the server build directory starts with
  the build directory, every such path is in \<open>build\<close> and no path is in \<open>app\<close>. Some
  path is in \<open>app\<close> exactly when the server build directory does not start with the
  build directory.
\<close>

theorem server_build_dir_chunk:
  "buildServerDir env nitro = join env (buildDir (options nitro)) ''dist/server''
   \<and> (startsWith mid (buildServerDir env nitro) \<longrightarrow>
         getChunkName env nitro mid
           = (if startsWith mid (buildDir (options nitro)) then ''chunks/build/[name].mjs''
              else ''chunks/app/[name].mjs''))
   \<and> (startsWith (buildServerDir env nitro) (buildDir (options nitro)) \<longrightarrow>
         (startsWith mid (buildServerDir env nitro)
            \<longrightarrow> getChunkName env nitro mid = ''chunks/build/[name].mjs'')
         \<and> getChunkName env nitro mid \<noteq> ''chunks/app/[name].mjs'')
   \<and> ((\<exists>m. getChunkName env nitro m = ''chunks/app/[name].mjs'')
        \<longleftrightarrow> \<not> startsWith (buildServerDir env nitro) (buildDir (options nitro)))"
proof -
  have under: "getChunkName env nitro m
      = (if startsWith m (buildDir (options nitro)) then ''chunks/build/[name].mjs''
         else ''chunks/app/[name].mjs'')"
    if "startsWith m (buildServerDir env nitro)" for m
    using that by (simp add: getChunkName_def chunkNamePrefixes_def chunk_file_def)
  have inside: "startsWith mid (buildServerDir env nitro)
      \<Longrightarrow> getChunkName env nitro mid = ''chunks/build/[name].mjs''"
    if "startsWith (buildServerDir env nitro) (buildDir (options nitro))"
    using that under [of mid] by (auto simp: startsWith_iff)
  have reached: "\<exists>m. getChunkName env nitro m = ''chunks/app/[name].mjs''"
    if "\<not> startsWith (buildServerDir env nitro) (buildDir (options nitro))"
    using that under [of "buildServerDir env nitro"] startsWith_self by auto
  show ?thesis
    using under [of mid] inside reached app_rule_never [of env nitro]
    by (auto simp: buildServerDir_def)
qed

theorem server_build_dir_chunk_witness:
  "buildServerDir sample_env sample_nitro = ''/app/.nitro/dist/server''
   \<and> startsWith (buildServerDir sample_env sample_nitro) (buildDir (options sample_nitro))
   \<and> startsWith ''/app/.nitro/dist/server/chunks/app.mjs'' (buildServerDir sample_env sample_nitro)
   \<and> getChunkName sample_env sample_nitro ''/app/.nitro/dist/server/chunks/app.mjs''
       = ''chunks/build/[name].mjs''
   \<and> buildServerDir normalising_env unnormalised_nitro = ''/app/.nitro/dist/server''
   \<and> \<not> startsWith (buildServerDir normalising_env unnormalised_nitro)
         (buildDir (options unnormalised_nitro))
   \<and> \<not> startsWith ''/app/.nitro/dist/server/chunks/app.mjs''
         (buildDir (options unnormalised_nitro))
   \<and> getChunkName normalising_env unnormalised_nitro ''/app/.nitro/dist/server/chunks/app.mjs''
       = ''chunks/app/[name].mjs''"
proof -
  have dir: "buildServerDir sample_env sample_nitro = ''/app/.nitro/dist/server''"
    by (simp add: buildServerDir_def sample_env_def sample_nitro_def sample_options_def
        sample_join_def)
  have bd: "buildDir (options sample_nitro) = ''/app/.nitro''"
    by (simp add: sample_nitro_def sample_options_def)
  have dir2: "buildServerDir normalising_env unnormalised_nitro = ''/app/.nitro/dist/server''"
    by (simp add: buildServerDir_def normalising_env_def unnormalised_nitro_def sample_env_def
        normalising_join_def push_segment_def)
  have bd2: "buildDir (options unnormalised_nitro) = ''/app/../app/.nitro''"
    by (simp add: unnormalised_nitro_def)
  have build: "getChunkName sample_env sample_nitro ''/app/.nitro/dist/server/chunks/app.mjs''
       = ''chunks/build/[name].mjs''"
    using server_build_dir_chunk [of sample_env sample_nitro
        "''/app/.nitro/dist/server/chunks/app.mjs''"]
    by (simp add: dir bd)
  have app: "getChunkName normalising_env unnormalised_nitro
        ''/app/.nitro/dist/server/chunks/app.mjs'' = ''chunks/app/[name].mjs''"
    using server_build_dir_chunk [of normalising_env unnormalised_nitro
        "''/app/.nitro/dist/server/chunks/app.mjs''"]
    by (simp add: dir2 bd2)
  show ?thesis
    using build app by (simp add: dir bd dir2 bd2)
qed

text \<open>
  The claim as it is stated fails where \<^verbatim>\<open>join\<close> normalises a build directory that
  is not normalised: the server build directory does not start with the build
  directory, and a path in it is in the group \<open>app\<close>.
\<close>

theorem app_rule_reached_counterexample:
  "join normalising_env (buildDir (options unnormalised_nitro)) ''dist/server''
     = ''/app/.nitro/dist/server''
   \<and> startsWith ''/app/.nitro/dist/server/chunks/app.mjs''
       (buildServerDir normalising_env unnormalised_nitro)
   \<and> getChunkName normalising_env unnormalised_nitro ''/app/.nitro/dist/server/chunks/app.mjs''
       = ''chunks/app/[name].mjs''"
proof -
  have j: "join normalising_env (buildDir (options unnormalised_nitro)) ''dist/server''
     = ''/app/.nitro/dist/server''"
    by (simp add: normalising_env_def unnormalised_nitro_def sample_env_def
        normalising_join_def push_segment_def)
  have bd: "buildDir (options unnormalised_nitro) = ''/app/../app/.nitro''"
    by (simp add: unnormalised_nitro_def)
  note j' = j [unfolded bd]
  show ?thesis
    by (simp add: j' bd buildServerDir_def getChunkName_def chunkNamePrefixes_def chunk_file_def)
qed


section \<open>Properties of reading the array back\<close>

lemma hex_all: "list_all (\<lambda>k. hex_value (hex_digit k) = Some k) [0..<16]"
  by code_simp

lemma hex_roundtrip: "k < 16 \<Longrightarrow> hex_value (hex_digit k) = Some k"
  using hex_all by (simp add: list_all_iff)

lemma hex_zero: "hex_value (CHR ''0'') = Some 0"
  by (simp add: hex_value_def)

lemma expect_append: "expect lit (lit @ rest) = Some rest"
  by (simp add: expect_def startsWith_iff)

lemma sq_body_roundtrip: "safe_route r \<Longrightarrow> sq_body (r @ CHR 0x27 # rest) = Some (r, rest)"
  by (induction r) (simp_all add: safe_route_def)

lemma unescape_control:
  assumes "(of_char c :: nat) < 32"
  shows "unescape (CHR ''u'' # CHR ''0'' # CHR ''0'' # hex_digit ((of_char c :: nat) div 16)
           # hex_digit (of_char c :: nat) # rest) = Some (c, rest)"
proof -
  have hi: "hex_value (hex_digit ((of_char c :: nat) div 16)) = Some ((of_char c :: nat) div 16)"
    using assms by (intro hex_roundtrip) simp
  have "hex_digit (of_char c :: nat) = hex_digit ((of_char c :: nat) mod 16)"
    by (simp add: hex_digit_def)
  then have lo: "hex_value (hex_digit (of_char c :: nat)) = Some ((of_char c :: nat) mod 16)"
    by (simp add: hex_roundtrip)
  have n: "(of_char c :: nat) div 16 * 16 + (of_char c :: nat) mod 16 = of_char c"
    by simp
  show ?thesis
    using assms by (simp add: unescape_def hex_zero hi lo n)
qed

lemma dq_step:
  "dq_body (json_escape c @ rest)
     = (case dq_body rest of None \<Rightarrow> None | Some (v, r) \<Rightarrow> Some (c # v, r))"
proof -
  consider (quote) "c = CHR 0x22" | (backslash) "c = CHR 0x5C"
    | (short) "c \<in> {CHR 0x08, CHR 0x0C, CHR 0x0A, CHR 0x0D, CHR 0x09}"
    | (control) "c \<notin> {CHR 0x22, CHR 0x5C, CHR 0x08, CHR 0x0C, CHR 0x0A, CHR 0x0D, CHR 0x09}"
        "(of_char c :: nat) < 32"
    | (plain) "c \<notin> {CHR 0x22, CHR 0x5C, CHR 0x08, CHR 0x0C, CHR 0x0A, CHR 0x0D, CHR 0x09}"
        "\<not> (of_char c :: nat) < 32"
    by blast
  then show ?thesis
  proof cases
    case quote
    then show ?thesis by (cases "dq_body rest") (auto simp: json_escape_def unescape_def)
  next
    case backslash
    then show ?thesis by (cases "dq_body rest") (auto simp: json_escape_def unescape_def)
  next
    case short
    then show ?thesis by (cases "dq_body rest") (auto simp: json_escape_def unescape_def)
  next
    case control
    then show ?thesis by (cases "dq_body rest") (auto simp: json_escape_def unescape_control)
  next
    case plain
    then show ?thesis by (cases "dq_body rest") (auto simp: json_escape_def)
  qed
qed

lemma dq_body_roundtrip:
  "dq_body (concat (map json_escape s) @ CHR 0x22 # rest) = Some (s, rest)"
  by (induction s) (simp_all add: dq_step)


lemma word_run:
  assumes "list_all is_word_char w" and "\<not> is_word_char c"
  shows "takeWhile is_word_char (w @ c # rest) = w"
    and "dropWhile is_word_char (w @ c # rest) = c # rest"
  using run_then_stop [OF assms(1), of "c # rest"] assms(2) by simp_all

lemma comma_not_word: "\<not> is_word_char (CHR '','')"
  by (simp add: is_word_char_def is_alpha_def is_digit_def)

lemma ident_word:
  "list_all is_word_char (take 6 (hash p)) \<Longrightarrow>
     list_all is_word_char (getImportId hash p lz) \<and> getImportId hash p lz \<noteq> []"
  by (simp add: getImportId_def is_word_char_def is_alpha_def)

lemma parse_bool_roundtrip: "parse_bool (js_bool b @ rest) = Some (b, rest)"
  by (cases b) (simp_all add: parse_bool_def js_bool_def)

lemma parse_method_roundtrip: "parse_method (JSON_stringify m @ rest) = Some (m, rest)"
  by (cases m) (simp_all add: parse_method_def JSON_stringify_def dq_body_roundtrip)

lemma parse_row_roundtrip:
  assumes "safe_route (route_or_empty h)"
    and "list_all is_word_char (take 6 (hash (handler h)))"
  shows "parse_row (row hash h @ rest) = Some (fields_of hash h, rest)"
proof -
  have ident: "list_all is_word_char (getImportId hash (handler h) (lazy h))"
    "getImportId hash (handler h) (lazy h) \<noteq> []"
    using assms(2) ident_word [of hash "handler h" "lazy h"] by simp_all
  show ?thesis
    using assms(1) ident
    by (simp add: parse_row_def row_def expect_def sq_body_roundtrip word_run comma_not_word
        parse_bool_roundtrip parse_method_roundtrip fields_of_def)
qed

lemma row_not_empty: "row hash h \<noteq> []"
  by (simp add: row_def)

lemma rows_fuel: "length hs \<le> length (join_str sep (map (row hash) hs))"
proof (induction hs rule: induct_list012)
  case 1
  then show ?case by simp
next
  case (2 h)
  have "0 < length (row hash h)"
    using row_not_empty [of hash h] by simp
  then show ?case
    by (simp add: Suc_le_eq del: length_greater_0_conv)
next
  case (3 h k hs)
  have pos: "0 < length (row hash h)"
    using row_not_empty [of hash h] by simp
  have "length (join_str sep (map (row hash) (h # k # hs)))
      = length (row hash h) + length sep + length (join_str sep (map (row hash) (k # hs)))"
    by simp
  moreover have "length (h # k # hs) = Suc (length (k # hs))"
    by simp
  ultimately show ?case
    using pos "3.IH"(2) by linarith
qed

lemma parse_rows_roundtrip:
  assumes "list_all (\<lambda>h. safe_route (route_or_empty h)
                         \<and> list_all is_word_char (take 6 (hash (handler h)))) hs"
    and "hs \<noteq> []" and "length hs \<le> n"
  shows "parse_rows n (join_str ('','' @ [CHR 0x0A]) (map (row hash) hs) @ CHR 0x0A # ''];'')
     = Some (map (fields_of hash) hs, CHR 0x0A # ''];'')"
  using assms
proof (induction hs arbitrary: n rule: induct_list012)
  case 1
  then show ?case by simp
next
  case (2 h)
  then obtain m where n: "n = Suc m"
    by (cases n) auto
  have "parse_row (row hash h @ CHR 0x0A # ''];'')
      = Some (fields_of hash h, CHR 0x0A # ''];'')"
    using 2 by (intro parse_row_roundtrip) simp_all
  then show ?case
    by (simp add: n)
next
  case (3 h k hs)
  then obtain m where n: "n = Suc m" and m: "length (k # hs) \<le> m"
    by (cases n) auto
  let ?tail = "join_str ('','' @ [CHR 0x0A]) (map (row hash) (k # hs)) @ CHR 0x0A # ''];''"
  have row: "parse_row (row hash h @ '','' @ [CHR 0x0A] @ ?tail)
      = Some (fields_of hash h, '','' @ [CHR 0x0A] @ ?tail)"
    using "3.prems" by (intro parse_row_roundtrip) simp_all
  have rest: "parse_rows m ?tail = Some (map (fields_of hash) (k # hs), CHR 0x0A # ''];'')"
    using "3.prems" m by (intro "3.IH"(2)) simp_all
  show ?case
    using row rest by (simp add: n)
qed

lemma read_array_roundtrip:
  assumes "list_all (\<lambda>h. safe_route (route_or_empty h)
                         \<and> list_all is_word_char (take 6 (hash (handler h)))) hs"
  shows "read_array (array_text hash hs) = Some (map (fields_of hash) hs)"
proof (cases "hs = []")
  case True
  then show ?thesis
    by (simp add: read_array_def array_text_def expect_def)
next
  case False
  let ?body = "join_str ('','' @ [CHR 0x0A]) (map (row hash) hs) @ CHR 0x0A # ''];''"
  have body: "expect (''export const handlers = ['' @ [CHR 0x0A]) (array_text hash hs)
      = Some ?body"
    by (simp add: array_text_def expect_def)
  have "length hs \<le> length ?body"
    using rows_fuel [where hs = hs and hash = hash and sep = "'','' @ [CHR 0x0A]"] by simp
  then have rows: "parse_rows (length ?body) ?body
      = Some (map (fields_of hash) hs, CHR 0x0A # ''];'')"
    using assms False by (intro parse_rows_roundtrip)
  have "hd ?body = CHR '' ''"
    using False by (induction hs rule: induct_list012) (simp_all add: row_def)
  then have "?body \<noteq> CHR 0x0A # ''];''"
    by auto
  then show ?thesis
    using body rows by (simp add: read_array_def)
qed

subsection \<open>A quote in a route\<close>

lemma plain_rows_safe:
  "list_all (\<lambda>h. safe_route (route_or_empty h)
                 \<and> list_all is_word_char (take 6 (sample_hash (handler h)))) [plain_a, plain_b]"
proof -
  have "sample_hash ''h1'' = ''h100000000''"
    by (simp add: sample_hash_def is_alpha_def is_digit_def)
  then show ?thesis
    by (simp add: plain_a_def plain_b_def route_or_empty_def safe_route_def is_word_char_def
        is_alpha_def is_digit_def)
qed

lemma injected_array:
  "array_text hash [injected_route (getImportId hash ''h1'' None)]
     = array_text hash [plain_a, plain_b]"
  by (simp add: array_text_def row_def injected_route_def plain_a_def plain_b_def
      route_or_empty_def truthy_bool_def js_bool_def JSON_stringify_def)

lemma injected_code:
  "code hash [injected_route (getImportId hash ''h1'' None)] = code hash [plain_a, plain_b]"
proof -
  have "imports_text hash [injected_route (getImportId hash ''h1'' None)]
      = imports_text hash [plain_a, plain_b]"
    by (simp add: imports_text_def imports_list_def lazyImports_def injected_route_def
        plain_a_def plain_b_def truthy_bool_def unique_def set_add_def)
  then show ?thesis
    by (simp only: code_shape injected_array)
qed

lemma two_rows_read:
  "read_array (array_text sample_hash [plain_a, plain_b])
     = Some [\<lparr>f_route = ''/a'', f_handler = ''_h10000'', f_lazy = False,
              f_middleware = False, f_method = None\<rparr>,
             \<lparr>f_route = ''/b'', f_handler = ''_h10000'', f_lazy = False,
              f_middleware = False, f_method = None\<rparr>]"
proof -
  have "map (fields_of sample_hash) [plain_a, plain_b]
     = [\<lparr>f_route = ''/a'', f_handler = ''_h10000'', f_lazy = False,
         f_middleware = False, f_method = None\<rparr>,
        \<lparr>f_route = ''/b'', f_handler = ''_h10000'', f_lazy = False,
         f_middleware = False, f_method = None\<rparr>]"
    by (simp add: fields_of_def plain_a_def plain_b_def route_or_empty_def getImportId_def
        sample_hash_def truthy_bool_def is_alpha_def is_digit_def)
  then show ?thesis
    using read_array_roundtrip [OF plain_rows_safe] by (simp only:)
qed

text \<open>
  C2. The route of a row is written between single quotes as it is, while the method
  beside it goes through \<^verbatim>\<open>JSON.stringify\<close>. A project with one handler
  declaration, whose route holds a quote followed by the text that ends a row and
  starts the next, has a table of one entry, and the array of its generated source
  holds two rows, for the routes \<open>/a\<close> and \<open>/b\<close>: not one row per declaration. The
  source is written out below, for every hash function; with the sample hash the array
  reads back as two entries.
\<close>

theorem one_declaration_two_rows:
  "handler_table (scanned_only [injected_route (getImportId hash ''h1'' None)])
     = [injected_route (getImportId hash ''h1'' None)]
   \<and> length (handler_table (scanned_only [injected_route (getImportId hash ''h1'' None)])) = 1
   \<and> source (server_handlers hash dump dbg
               (scanned_only [injected_route (getImportId hash ''h1'' None)]) prev)
       = ''import '' @ getImportId hash ''h1'' None
         @ '' from 'h1';\<newline>\<newline>\<newline>\<newline>export const handlers = [\<newline>  { route: '/a', handler: ''
         @ getImportId hash ''h1'' None
         @ '', lazy: false, middleware: false, method: undefined },\<newline>  { route: '/b', handler: ''
         @ getImportId hash ''h1'' None
         @ '', lazy: false, middleware: false, method: undefined }\<newline>];''
   \<and> getImportId sample_hash ''h1'' None = ''_h10000''
   \<and> read_array (array_text sample_hash (handler_table (scanned_only [injected_route ''_h10000''])))
       = Some [\<lparr>f_route = ''/a'', f_handler = ''_h10000'', f_lazy = False,
                f_middleware = False, f_method = None\<rparr>,
               \<lparr>f_route = ''/b'', f_handler = ''_h10000'', f_lazy = False,
                f_middleware = False, f_method = None\<rparr>]"
proof -
  have table: "handler_table (scanned_only hs) = hs" for hs
    by (simp add: handler_table_composition scanned_only_def)
  have header: "trimStart (imports_text hash [plain_a, plain_b])
      = ''import '' @ getImportId hash ''h1'' None @ '' from 'h1';\<newline>\<newline>\<newline>\<newline>''"
    by (simp add: imports_text_def imports_list_def lazyImports_def plain_a_def plain_b_def
        truthy_bool_def unique_def set_add_def import_stmt_def trimStart_def js_space_def)
  have array: "array_text hash [plain_a, plain_b]
      = ''export const handlers = [\<newline>  { route: '/a', handler: ''
        @ getImportId hash ''h1'' None
        @ '', lazy: false, middleware: false, method: undefined },\<newline>  { route: '/b', handler: ''
        @ getImportId hash ''h1'' None
        @ '', lazy: false, middleware: false, method: undefined }\<newline>];''"
    by (simp add: array_text_def row_def plain_a_def plain_b_def route_or_empty_def truthy_bool_def
        js_bool_def JSON_stringify_def)
  have "source (server_handlers hash dump dbg
               (scanned_only [injected_route (getImportId hash ''h1'' None)]) prev)
      = trimStart (imports_text hash [plain_a, plain_b]) @ array_text hash [plain_a, plain_b]"
    by (simp only: source_scanned_only injected_code) (simp only: code_shape)
  then have src: "source (server_handlers hash dump dbg
               (scanned_only [injected_route (getImportId hash ''h1'' None)]) prev)
       = ''import '' @ getImportId hash ''h1'' None
         @ '' from 'h1';\<newline>\<newline>\<newline>\<newline>export const handlers = [\<newline>  { route: '/a', handler: ''
         @ getImportId hash ''h1'' None
         @ '', lazy: false, middleware: false, method: undefined },\<newline>  { route: '/b', handler: ''
         @ getImportId hash ''h1'' None
         @ '', lazy: false, middleware: false, method: undefined }\<newline>];''"
    by (simp add: header array)
  have id: "getImportId sample_hash ''h1'' None = ''_h10000''"
    by (simp add: getImportId_def sample_hash_def truthy_bool_def is_alpha_def is_digit_def)
  have "read_array (array_text sample_hash [injected_route (getImportId sample_hash ''h1'' None)])
       = Some [\<lparr>f_route = ''/a'', f_handler = ''_h10000'', f_lazy = False,
                f_middleware = False, f_method = None\<rparr>,
               \<lparr>f_route = ''/b'', f_handler = ''_h10000'', f_lazy = False,
                f_middleware = False, f_method = None\<rparr>]"
    by (simp only: injected_array two_rows_read)
  then have rows: "read_array (array_text sample_hash
        (handler_table (scanned_only [injected_route ''_h10000''])))
       = Some [\<lparr>f_route = ''/a'', f_handler = ''_h10000'', f_lazy = False,
                f_middleware = False, f_method = None\<rparr>,
               \<lparr>f_route = ''/b'', f_handler = ''_h10000'', f_lazy = False,
                f_middleware = False, f_method = None\<rparr>]"
    by (simp only: table id)
  show ?thesis
    using src id rows by (simp only: table) simp
qed

text \<open>
  C7. For the same reason the table does not come back from the generated source. The
  table of that one declaration and the table of the two declarations with the routes
  \<open>/a\<close> and \<open>/b\<close> have the same generated source, for every hash function, while their
  rows differ in number and in route. With the sample hash, the array of the one
  declaration reads back as the two rows of the other table.
\<close>

theorem route_quote_breaks_round_trip:
  "code hash [injected_route (getImportId hash ''h1'' None)] = code hash [plain_a, plain_b]
   \<and> source (server_handlers hash dump dbg
               (scanned_only [injected_route (getImportId hash ''h1'' None)]) prev)
       = source (server_handlers hash dump dbg (scanned_only [plain_a, plain_b]) prev)
   \<and> map (fields_of hash) [injected_route (getImportId hash ''h1'' None)]
       \<noteq> map (fields_of hash) [plain_a, plain_b]
   \<and> f_route (fields_of hash (injected_route (getImportId hash ''h1'' None)))
       \<noteq> f_route (fields_of hash plain_a)
   \<and> read_array (array_text sample_hash [injected_route (getImportId sample_hash ''h1'' None)])
       = Some (map (fields_of sample_hash) [plain_a, plain_b])"
proof -
  have route: "f_route (fields_of hash (injected_route (getImportId hash ''h1'' None)))
       \<noteq> f_route (fields_of hash plain_a)"
    by (simp add: fields_of_def route_or_empty_def injected_route_def plain_a_def)
  have read: "read_array (array_text sample_hash
        [injected_route (getImportId sample_hash ''h1'' None)])
       = Some (map (fields_of sample_hash) [plain_a, plain_b])"
    using read_array_roundtrip [OF plain_rows_safe] by (simp only: injected_array)
  show ?thesis
    using route read by (simp add: injected_code source_scanned_only)
qed

end
